theory Spec2Isabelle
  imports Main "HOL-Library.Word" "HOL-Library.Multiset"
begin

unbundle bit_operations_syntax

section \<open>Strings\<close>

text \<open>
  Go strings are byte sequences; they are modelled as \<open>string\<close> (a list of 8-bit
  characters). The helpers below are the functions of Go's \<open>strings\<close>, \<open>strconv\<close> and
  \<open>fmt\<close> packages that the detector calls.
\<close>

definition hasPrefix :: "string \<Rightarrow> string \<Rightarrow> bool" where
  "hasPrefix s p = (take (length p) s = p)"

definition trimPrefix :: "string \<Rightarrow> string \<Rightarrow> string" where
  "trimPrefix s p = (if hasPrefix s p then drop (length p) s else s)"

fun contains :: "string \<Rightarrow> string \<Rightarrow> bool" where
  "contains [] sub = (sub = [])"
| "contains (c # cs) sub = (hasPrefix (c # cs) sub \<or> contains cs sub)"

definition toLowerChar :: "char \<Rightarrow> char" where
  "toLowerChar c =
     (case map_of (zip ''ABCDEFGHIJKLMNOPQRSTUVWXYZ'' ''abcdefghijklmnopqrstuvwxyz'') c of
        Some l \<Rightarrow> l
      | None \<Rightarrow> c)"

text \<open>
  \<open>strings.ToLower\<close>: a string of ASCII bytes has its capital letters replaced; any
  other string goes through \<open>strings.Map(unicode.ToLower, s)\<close>, which rests on the case
  tables of Unicode. Those tables are not part of the detector: the mapping of the strings
  that are not ASCII is the argument \<open>unicodeLower\<close>.
\<close>

definition isASCII :: "string \<Rightarrow> bool" where
  "isASCII s = list_all (\<lambda>c. (of_char c :: nat) < 128) s"

definition toLower :: "(string \<Rightarrow> string) \<Rightarrow> string \<Rightarrow> string" where
  "toLower unicodeLower s = (if isASCII s then map toLowerChar s else unicodeLower s)"

text \<open>
  \<open>strings.TrimSpace\<close> removes the white space of Unicode from both ends. In UTF-8 the
  white-space characters are the six of ASCII (tab, newline, vertical tab, form feed,
  carriage return, space) and U+0085, U+00A0, U+1680, U+2000 to U+200A, U+2028, U+2029,
  U+202F, U+205F and U+3000, as the byte sequences below; a byte that is not part of a
  valid encoding is no white space.
\<close>

definition spaceRunes :: "string list" where
  "spaceRunes =
     [[CHR 0x09], [CHR 0x0A], [CHR 0x0B], [CHR 0x0C], [CHR 0x0D], [CHR 0x20],
      [CHR 0xC2, CHR 0x85], [CHR 0xC2, CHR 0xA0], [CHR 0xE1, CHR 0x9A, CHR 0x80],
      [CHR 0xE2, CHR 0x80, CHR 0x80], [CHR 0xE2, CHR 0x80, CHR 0x81],
      [CHR 0xE2, CHR 0x80, CHR 0x82], [CHR 0xE2, CHR 0x80, CHR 0x83],
      [CHR 0xE2, CHR 0x80, CHR 0x84], [CHR 0xE2, CHR 0x80, CHR 0x85],
      [CHR 0xE2, CHR 0x80, CHR 0x86], [CHR 0xE2, CHR 0x80, CHR 0x87],
      [CHR 0xE2, CHR 0x80, CHR 0x88], [CHR 0xE2, CHR 0x80, CHR 0x89],
      [CHR 0xE2, CHR 0x80, CHR 0x8A], [CHR 0xE2, CHR 0x80, CHR 0xA8],
      [CHR 0xE2, CHR 0x80, CHR 0xA9], [CHR 0xE2, CHR 0x80, CHR 0xAF],
      [CHR 0xE2, CHR 0x81, CHR 0x9F], [CHR 0xE3, CHR 0x80, CHR 0x80]]"

text \<open>Removing from the front of \<open>s\<close> every leading sequence that is in \<open>ps\<close>.\<close>

fun trimBy :: "string list \<Rightarrow> string \<Rightarrow> string" where
  "trimBy ps [] = []"
| "trimBy ps (c # cs) =
     (case List.find (hasPrefix (c # cs)) ps of
        None \<Rightarrow> c # cs
      | Some p \<Rightarrow> trimBy ps (drop (length p - 1) cs))"

definition trimSpace :: "string \<Rightarrow> string" where
  "trimSpace s = rev (trimBy (map rev spaceRunes) (rev (trimBy spaceRunes s)))"

text \<open>\<open>strings.Split(s, "\n")\<close>: the pieces between the newlines, at least one piece.\<close>

fun splitLines :: "string \<Rightarrow> string list" where
  "splitLines [] = [] # []"
| "splitLines (c # cs) =
     (if c = CHR 0x0A then [] # splitLines cs
      else (case splitLines cs of l # ls \<Rightarrow> (c # l) # ls | [] \<Rightarrow> [c] # []))"

text \<open>\<open>strings.SplitN(s, " ", 2)\<close>: cut at the first space, if there is one.\<close>

definition splitN2 :: "string \<Rightarrow> string list" where
  "splitN2 s =
     (if CHR '' '' \<in> set s
      then [takeWhile (\<lambda>c. c \<noteq> CHR '' '') s, tl (dropWhile (\<lambda>c. c \<noteq> CHR '' '') s)]
      else [s])"

definition isDigit :: "char \<Rightarrow> bool" where
  "isDigit c = (let n = (of_char c :: nat) in 48 \<le> n \<and> n \<le> 57)"

definition isLowerHex :: "char \<Rightarrow> bool" where
  "isLowerHex c = (let n = (of_char c :: nat) in (48 \<le> n \<and> n \<le> 57) \<or> (97 \<le> n \<and> n \<le> 102))"

text \<open>
  \<open>strconv.Atoi\<close> on a run of decimal digits (the only strings the detector hands it,
  dropping the error): the number, or the largest 64-bit integer when it is out of range.
\<close>

definition atoi :: "string \<Rightarrow> int" where
  "atoi s = min (foldl (\<lambda>a c. 10 * a + (of_char c - 48)) 0 s) (2 ^ 63 - 1)"

definition hexDigit :: "nat \<Rightarrow> char" where
  "hexDigit n = ''0123456789abcdef'' ! n"

text \<open>
  The verb \<open>%02x\<close> applied to a text: two lowercase hexadecimal digits for each byte.
  \<open>fmt\<close> formats a value that has a \<open>String\<close> method through that method under the
  verbs \<open>%v\<close>, \<open>%s\<close>, \<open>%x\<close>, \<open>%X\<close> and \<open>%q\<close>, so this is what \<open>%02x\<close> does
  to a \<open>gousb.Class\<close> and a \<open>gousb.Protocol\<close>. The width 2 would pad only the empty
  text, which is the text of no class and no protocol: a number in decimal is not empty,
  and neither are the descriptions of the library.
\<close>

definition hexByte :: "char \<Rightarrow> string" where
  "hexByte c = [hexDigit ((of_char c :: nat) div 16), hexDigit ((of_char c :: nat) mod 16)]"

definition hexEncode :: "string \<Rightarrow> string" where
  "hexEncode s = concat (map hexByte s)"

text \<open>\<open>fmt.Sprintf("%d", n)\<close> and \<open>strconv.Itoa\<close> for a number that is not negative.\<close>

fun showNat :: "nat \<Rightarrow> string" where
  "showNat n = (if n < 10 then [hexDigit n] else showNat (n div 10) @ [hexDigit (n mod 10)])"

declare showNat.simps [simp del]

subsection \<open>\<open>strconv.ParseUint\<close>\<close>

datatype NumError = ErrSyntax | ErrRange

definition lower :: "8 word \<Rightarrow> 8 word" where
  "lower c = c OR 0x20"

definition digitVal :: "char \<Rightarrow> nat option" where
  "digitVal ch =
     (let c = (of_char ch :: 8 word) in
      if 0x30 \<le> c \<and> c \<le> 0x39 then Some (unat (c - 0x30))
      else if 0x61 \<le> lower c \<and> lower c \<le> 0x7a then Some (unat (lower c - 0x61 + 10))
      else None)"

text \<open>
  The digit loop of \<open>ParseUint\<close> for an explicit base between 2 and 36 (no prefix, no
  underscores): \<open>n\<close> is the 64-bit accumulator, \<open>cutoff\<close> the first value whose product
  with the base overflows it.
\<close>

fun parseUintLoop :: "nat \<Rightarrow> nat \<Rightarrow> nat \<Rightarrow> string \<Rightarrow> NumError + nat" where
  "parseUintLoop base maxVal n [] = Inr n"
| "parseUintLoop base maxVal n (c # cs) =
     (case digitVal c of
        None \<Rightarrow> Inl ErrSyntax
      | Some d \<Rightarrow>
          if d \<ge> base then Inl ErrSyntax
          else if n \<ge> (2 ^ 64 - 1) div base + 1 then Inl ErrRange
          else (let n0 = n * base; n1 = (n0 + d) mod 2 ^ 64 in
                if n1 < n0 \<or> n1 > maxVal then Inl ErrRange
                else parseUintLoop base maxVal n1 cs))"

definition ParseUint :: "string \<Rightarrow> nat \<Rightarrow> nat \<Rightarrow> NumError + nat" where
  "ParseUint s base bitSize =
     (if s = [] then Inl ErrSyntax else parseUintLoop base (2 ^ bitSize - 1) 0 s)"

section \<open>The device model\<close>

text \<open>
  \<open>models.USBDevice\<close>. Devices are handled through pointers and a device's children are
  pointers too, so a device is a record in a store and \<open>Children\<close> holds references.
  The detector puts only records it has made into its slices and maps, so no reference
  is nil.
\<close>

type_synonym ref = nat

record USBDevice =
  VendorID :: "16 word"
  ProductID :: "16 word"
  VendorName :: string
  ProductName :: string
  Bus :: int
  Port :: int
  Address :: int
  Serial :: string
  Speed :: string
  Class :: string
  SubClass :: string
  Protocol :: string
  MaxPower :: string
  Children :: "ref list"

type_synonym store = "ref \<Rightarrow> USBDevice"

text \<open>The zero value of the struct, which a composite literal starts from.\<close>

definition zeroDevice :: USBDevice where
  "zeroDevice = \<lparr>VendorID = 0, ProductID = 0, VendorName = [], ProductName = [], Bus = 0,
     Port = 0, Address = 0, Serial = [], Speed = [], Class = [], SubClass = [], Protocol = [],
     MaxPower = [], Children = []\<rparr>"

definition AddChild :: "ref \<Rightarrow> ref \<Rightarrow> store \<Rightarrow> store" where
  "AddChild d child h = h(d := (h d)\<lparr>Children := Children (h d) @ [child]\<rparr>)"

section \<open>Speed and class labels of the structured backend\<close>

text \<open>\<open>gousb.Speed\<close> is an integer type; its named values are those of libusb.\<close>

type_synonym gousbSpeed = int

definition SpeedUnknown :: gousbSpeed where "SpeedUnknown = 0"
definition SpeedLow :: gousbSpeed where "SpeedLow = 1"
definition SpeedFull :: gousbSpeed where "SpeedFull = 2"
definition SpeedHigh :: gousbSpeed where "SpeedHigh = 3"
definition SpeedSuper :: gousbSpeed where "SpeedSuper = 4"

definition getSpeedString :: "gousbSpeed \<Rightarrow> string" where
  "getSpeedString speed =
     (if speed = SpeedLow then ''Low (1.5 Mbps)''
      else if speed = SpeedFull then ''Full (12 Mbps)''
      else if speed = SpeedHigh then ''High (480 Mbps)''
      else if speed = SpeedSuper then ''Super (5 Gbps)''
      else ''Unknown'')"

definition convertSystemProfilerSpeed :: "string \<Rightarrow> string" where
  "convertSystemProfilerSpeed speed =
     (if contains speed ''low_speed'' then ''Low (1.5 Mbps)''
      else if contains speed ''full_speed'' then ''Full (12 Mbps)''
      else if contains speed ''high_speed'' then ''High (480 Mbps)''
      else if contains speed ''super_speed_5gbps'' then ''Super (5 Gbps)''
      else if contains speed ''super_speed_10gbps'' then ''Super+ (10 Gbps)''
      else if contains speed ''super_speed'' then ''Super (5 Gbps)''
      else if speed \<noteq> [] then speed
      else ''Unknown'')"

text \<open>
  \<open>gousb.Class\<close> is a byte with a \<open>String\<close> method: the description that the
  library's table \<open>classDescription\<close> gives the code, or else the code in decimal.
  \<open>gousb.Protocol\<close> is a byte whose \<open>String\<close> is the code in decimal. The table
  belongs to the library and not to the detector; it is the argument \<open>cd\<close>.
\<close>

definition classString :: "(8 word \<rightharpoonup> string) \<Rightarrow> 8 word \<Rightarrow> string" where
  "classString cd c = (case cd c of Some d \<Rightarrow> d | None \<Rightarrow> showNat (unat c))"

definition protocolString :: "8 word \<Rightarrow> string" where
  "protocolString p = showNat (unat p)"

text \<open>
  \<open>getClassString\<close>. Its last line is \<open>fmt.Sprintf("Class %02x", class)\<close> with
  \<open>class\<close> a \<open>gousb.Class\<close>, so the verb is applied to the text of \<open>class.String()\<close>.
\<close>

definition classNames :: "(8 word \<times> string) list" where
  "classNames =
     [(0x00, ''Device''), (0x01, ''Audio''), (0x02, ''Communications''), (0x03, ''HID''),
      (0x05, ''Physical''), (0x06, ''Image''), (0x07, ''Printer''), (0x08, ''Mass Storage''),
      (0x09, ''Hub''), (0x0a, ''CDC Data''), (0x0b, ''Smart Card''),
      (0x0d, ''Content Security''), (0x0e, ''Video''), (0x0f, ''Personal Healthcare''),
      (0x10, ''Audio/Video''), (0xdc, ''Diagnostic''), (0xe0, ''Wireless''),
      (0xef, ''Miscellaneous''), (0xfe, ''Application Specific''), (0xff, ''Vendor Specific'')]"

definition getClassString :: "(8 word \<rightharpoonup> string) \<Rightarrow> 8 word \<Rightarrow> string" where
  "getClassString cd cls =
     (case map_of classNames cls of
        Some name \<Rightarrow> name
      | None \<Rightarrow> ''Class '' @ hexEncode (classString cd cls))"

section \<open>The system-profiler backend: hex IDs and root hubs\<close>

definition parseHexID :: "string \<Rightarrow> 16 word" where
  "parseHexID hexStr =
     (if hexStr = [] then 0
      else (case ParseUint (trimPrefix hexStr ''0x'') 16 16 of
              Inl err \<Rightarrow> 0
            | Inr val \<Rightarrow> word_of_nat val))"

text \<open>
  \<open>spUSBController\<close>, without its \<open>_items\<close>, which \<open>createRootHubFromController\<close> does
  not read.
\<close>

record spUSBController =
  cName :: string
  cHostController :: string
  cVendorID :: string
  cProductID :: string
  cManufacturer :: string
  cSerialNum :: string
  cSpeed :: string
  cCurrentAvailable :: string
  cCurrentRequired :: string

definition createRootHubFromController :: "spUSBController \<Rightarrow> int \<Rightarrow> USBDevice" where
  "createRootHubFromController controller busNumber =
     (let vendorID0 = parseHexID (cVendorID controller);
          productID0 = parseHexID (cProductID controller);
          isUSB3 = (contains (cName controller) ''31'' \<or> contains (cHostController controller) ''XHCI'');
          vendorID = (if vendorID0 = 0 then 0x05ac else vendorID0);
          productID = (if productID0 = 0 then (if isUSB3 then 0x0003 else 0x0002) else productID0);
          hubName = (if cHostController controller \<noteq> []
                     then (if isUSB3 then ''USB 3.1 Root Hub'' else ''USB 2.0 Root Hub'')
                     else cName controller);
          rootHub = zeroDevice\<lparr>VendorID := vendorID, ProductID := productID,
                      VendorName := cManufacturer controller, ProductName := hubName,
                      Bus := busNumber, Address := 1, Port := 0,
                      Speed := convertSystemProfilerSpeed (cSpeed controller),
                      Class := ''Hub'', SubClass := ''00'', Protocol := ''00''\<rparr>;
          rootHub = (if VendorName rootHub = [] then rootHub\<lparr>VendorName := ''Apple Inc.''\<rparr>
                     else rootHub);
          rootHub = (if Speed rootHub = ''Unknown'' \<or> Speed rootHub = []
                     then rootHub\<lparr>Speed := (if isUSB3 then ''Super (5 Gbps)'' else ''High (480 Mbps)'')\<rparr>
                     else rootHub);
          rootHub = (if cCurrentAvailable controller \<noteq> []
                     then rootHub\<lparr>MaxPower := cCurrentAvailable controller\<rparr>
                     else rootHub)
      in rootHub)"

section \<open>The flat-list backend (\<open>lsusb\<close>)\<close>

text \<open>
  Go's regular expressions give the leftmost match, and at that place the first one in
  priority order. The two helpers consume a literal and a fixed number of characters of a
  class; \<open>\d\<close> is an ASCII digit and \<open>\s\<close> one of tab, newline, form feed, carriage
  return and space.
\<close>

definition expectLit :: "string \<Rightarrow> string \<Rightarrow> string option" where
  "expectLit lit s = (if hasPrefix s lit then Some (drop (length lit) s) else None)"

definition expectN :: "(char \<Rightarrow> bool) \<Rightarrow> nat \<Rightarrow> string \<Rightarrow> (string \<times> string) option" where
  "expectN p n s =
     (if n \<le> length s \<and> list_all p (take n s) then Some (take n s, drop n s) else None)"

definition isReSpace :: "char \<Rightarrow> bool" where
  "isReSpace c = (let n = (of_char c :: nat) in n = 9 \<or> n = 10 \<or> n = 12 \<or> n = 13 \<or> n = 32)"

text \<open>
  \<open>Bus (\d{3}) Device (\d{3}): ID ([0-9a-f]{4}):([0-9a-f]{4})\s*(.*)$\<close> tried at the
  start of \<open>s\<close>; the result is the five groups. The greedy \<open>\s*\<close> takes all the white
  space and \<open>(.*)$\<close> the rest, which must hold no newline.
\<close>

definition matchLsusbAt :: "string \<Rightarrow> (string \<times> string \<times> string \<times> string \<times> string) option" where
  "matchLsusbAt s =
     (case expectLit ''Bus '' s of None \<Rightarrow> None | Some s1 \<Rightarrow>
      case expectN isDigit 3 s1 of None \<Rightarrow> None | Some (g1, s2) \<Rightarrow>
      case expectLit '' Device '' s2 of None \<Rightarrow> None | Some s3 \<Rightarrow>
      case expectN isDigit 3 s3 of None \<Rightarrow> None | Some (g2, s4) \<Rightarrow>
      case expectLit '': ID '' s4 of None \<Rightarrow> None | Some s5 \<Rightarrow>
      case expectN isLowerHex 4 s5 of None \<Rightarrow> None | Some (g3, s6) \<Rightarrow>
      case expectLit '':'' s6 of None \<Rightarrow> None | Some s7 \<Rightarrow>
      case expectN isLowerHex 4 s7 of None \<Rightarrow> None | Some (g4, s8) \<Rightarrow>
      (let g5 = dropWhile isReSpace s8 in
       if CHR 0x0A \<in> set g5 then None else Some (g1, g2, g3, g4, g5)))"

text \<open>\<open>re.FindStringSubmatch(line)\<close>: the match at the leftmost place that has one.\<close>

fun findLsusb :: "string \<Rightarrow> (string \<times> string \<times> string \<times> string \<times> string) option" where
  "findLsusb [] = matchLsusbAt []"
| "findLsusb (c # cs) =
     (case matchLsusbAt (c # cs) of Some m \<Rightarrow> Some m | None \<Rightarrow> findLsusb cs)"

text \<open>The vendor and product names of a description that is not empty.\<close>

definition splitDescription :: "string \<Rightarrow> string \<times> string" where
  "splitDescription description =
     (if hasPrefix description ''Linux Foundation''
      then (''Linux Foundation'', trimPrefix description ''Linux Foundation '')
      else if hasPrefix description ''VIA Labs, Inc.''
      then (''VIA Labs, Inc.'', trimPrefix description ''VIA Labs, Inc. '')
      else if hasPrefix description ''Terminus Technology Inc.''
      then (''Terminus Technology Inc.'', trimPrefix description ''Terminus Technology Inc. '')
      else if hasPrefix description ''Anker Innovations Limited.''
      then (''Anker Innovations Limited.'', trimPrefix description ''Anker Innovations Limited. '')
      else if hasPrefix description ''Valve Software''
      then (''Valve Software'', trimPrefix description ''Valve Software '')
      else if hasPrefix description ''ASIX Electronics Corp.''
      then (''ASIX Electronics Corp.'', trimPrefix description ''ASIX Electronics Corp. '')
      else if hasPrefix description ''Intel Corp.''
      then (''Intel Corp.'', trimPrefix description ''Intel Corp. '')
      else if hasPrefix description ''Micro Star International''
      then (''Micro Star International'', trimPrefix description ''Micro Star International '')
      else if hasPrefix description ''Genesys Logic, Inc.''
      then (''Genesys Logic, Inc.'', trimPrefix description ''Genesys Logic, Inc. '')
      else if hasPrefix description ''SteelSeries ApS''
      then (''SteelSeries ApS'', trimPrefix description ''SteelSeries ApS '')
      else if hasPrefix description ''KYE Systems Corp.''
      then (''KYE Systems Corp.'', trimPrefix description ''KYE Systems Corp. '')
      else (let parts = splitN2 description in
            (if length parts > 0 then parts ! 0 else [],
             if length parts > 1 then parts ! 1 else [])))"

text \<open>The class that \<open>parseLsusbOutput\<close> gives a product name.\<close>

definition lsusbClass :: "(string \<Rightarrow> string) \<Rightarrow> string \<Rightarrow> string" where
  "lsusbClass unicodeLower productName =
     (let productLower = toLower unicodeLower productName in
      if contains productLower ''hub'' then ''Hub''
      else if contains productLower ''keyboard'' \<or> contains productLower ''mouse'' then ''HID''
      else if contains productLower ''camera'' then ''Video''
      else if contains productLower ''audio'' \<or> contains productLower ''headset''
              \<or> contains productLower ''arctis'' then ''Audio''
      else if contains productLower ''ethernet'' \<or> contains productLower ''ax88179''
      then ''Communications''
      else if contains productLower ''bluetooth'' \<or> contains productLower ''ax200''
      then ''Wireless''
      else if contains productLower ''controller'' then ''HID''
      else if contains productLower ''jtag'' \<or> contains productLower ''serial''
      then ''Communications''
      else ''Device'')"

text \<open>
  The body of the loop of \<open>parseLsusbOutput\<close> for one line: \<open>None\<close> where the loop says
  \<open>continue\<close>, otherwise the record built from the line. The two \<open>ParseUint\<close> calls see
  four lowercase hex digits; their error result is dropped as in the source, which leaves
  the value 0.
\<close>

definition parseUintOrZero :: "string \<Rightarrow> nat" where
  "parseUintOrZero s = (case ParseUint s 16 16 of Inl err \<Rightarrow> 0 | Inr v \<Rightarrow> v)"

definition parseLsusbLine :: "(string \<Rightarrow> string) \<Rightarrow> string \<Rightarrow> USBDevice option" where
  "parseLsusbLine unicodeLower line =
     (if line = [] then None
      else (case findLsusb line of
              None \<Rightarrow> None
            | Some (g1, g2, g3, g4, g5) \<Rightarrow>
                (let bus = atoi g1;
                     address = atoi g2;
                     vendorID = parseUintOrZero g3;
                     productID = parseUintOrZero g4;
                     description = trimSpace g5;
                     (vendorName, productName) =
                        (if description \<noteq> [] then splitDescription description else ([], []));
                     usbDevice = zeroDevice\<lparr>VendorID := word_of_nat vendorID,
                        ProductID := word_of_nat productID, Bus := bus, Address := address,
                        Port := 0, VendorName := vendorName, ProductName := productName,
                        Speed := ''Unknown''\<rparr>;
                     usbDevice = usbDevice\<lparr>Class := lsusbClass unicodeLower productName\<rparr>;
                     usbDevice =
                        (if vendorID = 0x1d6b
                         then (if productID = 0x0002 then usbDevice\<lparr>Speed := ''High (480 Mbps)''\<rparr>
                               else if productID = 0x0003 then usbDevice\<lparr>Speed := ''Super (5 Gbps)''\<rparr>
                               else usbDevice)
                         else usbDevice)
                 in Some usbDevice)))"

text \<open>
  The maps of the detector have keys printed from integers (\<open>"%d-%d"\<close> of bus and
  address, \<open>"bus-%d"\<close> of the bus). Both formats are injective, so the keys are modelled
  by the integers themselves. Go visits the entries of a map in an order it does not
  specify: every loop over a map takes the order of the visit as an argument, a list of
  keys, and a visit order of a map is a list without repetition of exactly its keys.
\<close>

type_synonym key = "int \<times> int"

definition visitOrder :: "'k list \<Rightarrow> ('k \<rightharpoonup> 'v) \<Rightarrow> bool" where
  "visitOrder ks m = (distinct ks \<and> set ks = dom m)"

text \<open>The device map after the lines of the output, and the slice made from it.\<close>

definition lsusbStep ::
  "(string \<Rightarrow> string) \<Rightarrow> string \<Rightarrow> (key \<rightharpoonup> USBDevice) \<Rightarrow> (key \<rightharpoonup> USBDevice)" where
  "lsusbStep unicodeLower line deviceMap =
     (case parseLsusbLine unicodeLower line of
        None \<Rightarrow> deviceMap
      | Some usbDevice \<Rightarrow> deviceMap((Bus usbDevice, Address usbDevice) \<mapsto> usbDevice))"

definition lsusbDeviceMap :: "(string \<Rightarrow> string) \<Rightarrow> string list \<Rightarrow> (key \<rightharpoonup> USBDevice)" where
  "lsusbDeviceMap unicodeLower lines = fold (lsusbStep unicodeLower) lines Map.empty"

text \<open>
  \<open>parseLsusbOutput\<close>, from the outcome of running \<open>lsusb\<close> (its output, or the error of
  the command). The records are new and not shared, so the slice is modelled by their
  values.
\<close>

datatype detectError = LsusbFailed string | LsusbTreeFailed string | PermissionDenied
  | EnumerateFailed string

definition parseLsusbOutput ::
  "(string \<Rightarrow> string) \<Rightarrow> key list \<Rightarrow> string + string \<Rightarrow> detectError + USBDevice list" where
  "parseLsusbOutput unicodeLower order cmd =
     (case cmd of
        Inl err \<Rightarrow> Inl (LsusbFailed err)
      | Inr output \<Rightarrow>
          Inr (List.map_filter (lsusbDeviceMap unicodeLower (splitLines output)) order))"

text \<open>
  For stating what the flat-list backend returns: a line matches when the regular
  expression finds a match in it; the matching lines give their records in the order of
  the lines; and the record of a key is the last of them with that bus and address.
\<close>

definition matchesLsusb :: "string \<Rightarrow> bool" where
  "matchesLsusb line = (findLsusb line \<noteq> None)"

definition matchingRecords :: "(string \<Rightarrow> string) \<Rightarrow> string list \<Rightarrow> USBDevice list" where
  "matchingRecords unicodeLower lines = List.map_filter (parseLsusbLine unicodeLower) lines"

definition devKey :: "USBDevice \<Rightarrow> key" where
  "devKey d = (Bus d, Address d)"

definition lastWithKey :: "key \<Rightarrow> USBDevice list \<Rightarrow> USBDevice option" where
  "lastWithKey k ds = List.find (\<lambda>d. devKey d = k) (rev ds)"

definition putRecord :: "USBDevice \<Rightarrow> (key \<rightharpoonup> USBDevice) \<Rightarrow> (key \<rightharpoonup> USBDevice)" where
  "putRecord d m = m(devKey d \<mapsto> d)"

section \<open>The tree backend (\<open>lsusb -t\<close>)\<close>

text \<open>
  \<open>treeNode\<close>. A node's \<open>bus\<close>, \<open>port\<close>, \<open>dev\<close> and \<open>speed\<close> never change once it is
  built, so the parent pointer is modelled by the parent's value. The \<open>children\<close> slice
  is appended to by the parser and read nowhere; it is left out.
\<close>

datatype treeNode = TreeNode (bus: int) (port: int) (dev: int) (speed: string)
  (parent: "treeNode option")











definition convertSpeed :: "string \<Rightarrow> string" where
  "convertSpeed sp =
     (if sp = ''1.5M'' then ''Low (1.5 Mbps)''
      else if sp = ''12M'' then ''Full (12 Mbps)''
      else if sp = ''480M'' then ''High (480 Mbps)''
      else if sp = ''5000M'' then ''Super (5 Gbps)''
      else if sp = ''10000M'' then ''Super+ (10 Gbps)''
      else sp)"

section \<open>Merging the hierarchy into the flat list\<close>

text \<open>The first loop of \<open>mergeHierarchy\<close>, for one device of the slice.\<close>

definition mergeIndex ::
  "(key \<rightharpoonup> treeNode) \<Rightarrow> ref \<Rightarrow> (key \<rightharpoonup> ref) \<times> (int \<rightharpoonup> ref) \<times> store
     \<Rightarrow> (key \<rightharpoonup> ref) \<times> (int \<rightharpoonup> ref) \<times> store" where
  "mergeIndex hierarchy device st =
     (case st of (deviceMap, rootDevices, h) \<Rightarrow>
        (let k = (Bus (h device), Address (h device));
             deviceMap = deviceMap(k \<mapsto> device);
             h = (case hierarchy k of
                    None \<Rightarrow> h
                  | Some node \<Rightarrow>
                      (let h = h(device := (h device)\<lparr>Port := port node\<rparr>)
                       in if speed node \<noteq> []
                          then h(device := (h device)\<lparr>Speed := convertSpeed (speed node)\<rparr>)
                          else h));
             rootDevices = (if Address (h device) = 1
                            then rootDevices(Bus (h device) \<mapsto> device) else rootDevices)
         in (deviceMap, rootDevices, h)))"

text \<open>The second loop, for one entry of the hierarchy.\<close>

definition mergeAttach :: "(key \<rightharpoonup> treeNode) \<Rightarrow> (key \<rightharpoonup> ref) \<Rightarrow> key \<Rightarrow> store \<Rightarrow> store" where
  "mergeAttach hierarchy deviceMap k h =
     (case hierarchy k of
        None \<Rightarrow> h
      | Some node \<Rightarrow>
          (case deviceMap k of
             None \<Rightarrow> h
           | Some device \<Rightarrow>
               (case parent node of
                  None \<Rightarrow> h
                | Some p \<Rightarrow>
                    (case deviceMap (bus p, dev p) of
                       None \<Rightarrow> h
                     | Some par \<Rightarrow> AddChild par device h))))"

text \<open>The two loops of the fallback block.\<close>

definition fallbackRoot :: "store \<Rightarrow> ref \<Rightarrow> (int \<rightharpoonup> ref) \<Rightarrow> (int \<rightharpoonup> ref)" where
  "fallbackRoot h device rootDevices =
     (if Address (h device) = 1 then rootDevices(Bus (h device) \<mapsto> device) else rootDevices)"

definition fallbackAttach :: "(int \<rightharpoonup> ref) \<Rightarrow> ref \<Rightarrow> store \<Rightarrow> store" where
  "fallbackAttach rootDevices device h =
     (if Address (h device) \<noteq> 1
      then (case rootDevices (Bus (h device)) of
              None \<Rightarrow> h
            | Some root \<Rightarrow> AddChild root device h)
      else h)"

text \<open>
  \<open>mergeHierarchy\<close> on the store \<open>h\<close>. The arguments \<open>hOrder\<close>, \<open>rOrder\<close> and \<open>rOrder2\<close>
  are the visit orders of the loop over \<open>hierarchy\<close> and of the two loops over
  \<open>rootDevices\<close>. The result is the returned slice and the store after the call.
\<close>

definition mergeHierarchy ::
  "key list \<Rightarrow> int list \<Rightarrow> int list \<Rightarrow> ref list \<Rightarrow> (key \<rightharpoonup> treeNode) \<Rightarrow> store
     \<Rightarrow> ref list \<times> store" where
  "mergeHierarchy hOrder rOrder rOrder2 devices hierarchy h0 =
     (case fold (mergeIndex hierarchy) devices (Map.empty, Map.empty, h0) of
        (deviceMap, rootDevices, h1) \<Rightarrow>
          (let h2 = fold (mergeAttach hierarchy deviceMap) hOrder h1;
               result = List.map_filter rootDevices rOrder
           in if length result = 0
              then (let rootDevices = fold (fallbackRoot h2) devices rootDevices;
                        h3 = fold (fallbackAttach rootDevices) devices h2
                    in (result @ List.map_filter rootDevices rOrder2, h3))
              else (result, h2)))"

text \<open>The maps that the first loop builds, for stating properties of the visit orders.\<close>

definition mergeDeviceMap :: "ref list \<Rightarrow> (key \<rightharpoonup> treeNode) \<Rightarrow> store \<Rightarrow> (key \<rightharpoonup> ref)" where
  "mergeDeviceMap devices hierarchy h0 =
     fst (fold (mergeIndex hierarchy) devices (Map.empty, Map.empty, h0))"

definition mergeRootDevices :: "ref list \<Rightarrow> (key \<rightharpoonup> treeNode) \<Rightarrow> store \<Rightarrow> (int \<rightharpoonup> ref)" where
  "mergeRootDevices devices hierarchy h0 =
     fst (snd (fold (mergeIndex hierarchy) devices (Map.empty, Map.empty, h0)))"

definition mergeStore :: "ref list \<Rightarrow> (key \<rightharpoonup> treeNode) \<Rightarrow> store \<Rightarrow> store" where
  "mergeStore devices hierarchy h0 =
     snd (snd (fold (mergeIndex hierarchy) devices (Map.empty, Map.empty, h0)))"

text \<open>
  The three parts of one step of the first loop, named for the proofs: the key of a
  device, the entry it gets in \<open>deviceMap\<close> and what the step does to the store. The
  part for \<open>rootDevices\<close> is \<open>fallbackRoot\<close>, the same test as in the fallback block.
\<close>

definition keyOf :: "store \<Rightarrow> ref \<Rightarrow> key" where
  "keyOf h d = (Bus (h d), Address (h d))"

definition indexDevice :: "store \<Rightarrow> ref \<Rightarrow> (key \<rightharpoonup> ref) \<Rightarrow> (key \<rightharpoonup> ref)" where
  "indexDevice h d deviceMap = deviceMap(keyOf h d \<mapsto> d)"

definition indexStore :: "(key \<rightharpoonup> treeNode) \<Rightarrow> ref \<Rightarrow> store \<Rightarrow> store" where
  "indexStore hierarchy d h =
     (case hierarchy (keyOf h d) of
        None \<Rightarrow> h
      | Some node \<Rightarrow>
          (if speed node \<noteq> []
           then h(d := (h d)\<lparr>Port := port node, Speed := convertSpeed (speed node)\<rparr>)
           else h(d := (h d)\<lparr>Port := port node\<rparr>)))"

text \<open>
  The edge that the second loop adds at a key of the hierarchy, as parent and child, if
  it adds one; and the children that a list of edges gives a record.
\<close>

definition mergeEdge :: "(key \<rightharpoonup> treeNode) \<Rightarrow> (key \<rightharpoonup> ref) \<Rightarrow> key \<Rightarrow> (ref \<times> ref) option" where
  "mergeEdge hierarchy deviceMap k =
     (case hierarchy k of
        None \<Rightarrow> None
      | Some node \<Rightarrow>
          (case deviceMap k of
             None \<Rightarrow> None
           | Some device \<Rightarrow>
               (case parent node of
                  None \<Rightarrow> None
                | Some p \<Rightarrow>
                    (case deviceMap (bus p, dev p) of
                       None \<Rightarrow> None
                     | Some par \<Rightarrow> Some (par, device)))))"

definition childrenAdded :: "ref \<Rightarrow> (ref \<times> ref) list \<Rightarrow> ref list" where
  "childrenAdded r es = map snd (filter (\<lambda>e. fst e = r) es)"

text \<open>
  Scenario D: the hierarchy that the tree parser builds from the root line
  \<open>/:  Bus 1.Port 1: Dev 1\<close> and the child line \<open>Port 2: Dev 3, 480M\<close> indented by four
  spaces or more, and a store with a root hub at reference 0 and a device with address 3 at
  reference 1, as the flat-list backend makes them.
\<close>

definition hierarchyD :: "key \<rightharpoonup> treeNode" where
  "hierarchyD = [(1, 1) \<mapsto> TreeNode 1 1 1 [] None,
                 (1, 3) \<mapsto> TreeNode 1 2 3 ''480M'' (Some (TreeNode 1 1 1 [] None))]"

definition storeD :: store where
  "storeD = (\<lambda>r. zeroDevice)
     (0 := zeroDevice\<lparr>VendorID := 0x1d6b, ProductID := 0x0002, VendorName := ''Linux Foundation'',
             ProductName := ''2.0 root hub'', Bus := 1, Address := 1,
             Speed := ''High (480 Mbps)'', Class := ''Hub''\<rparr>,
      1 := zeroDevice\<lparr>VendorID := 0x046d, ProductID := 0xc52b, VendorName := ''Logitech'',
             ProductName := ''USB Receiver'', Bus := 1, Address := 3,
             Speed := ''Unknown'', Class := ''Device''\<rparr>)"


text \<open>
  A hierarchy with two devices on the ports 2 and 3 of the root hub of bus 1, and a store
  with the three records at the references 10, 11 and 12.
\<close>

definition hierarchyE :: "key \<rightharpoonup> treeNode" where
  "hierarchyE = [(1, 1) \<mapsto> TreeNode 1 1 1 [] None,
                 (1, 3) \<mapsto> TreeNode 1 2 3 ''480M'' (Some (TreeNode 1 1 1 [] None)),
                 (1, 4) \<mapsto> TreeNode 1 3 4 ''12M'' (Some (TreeNode 1 1 1 [] None))]"

definition storeE :: store where
  "storeE = (\<lambda>r. zeroDevice)
     (10 := zeroDevice\<lparr>VendorID := 0x1d6b, ProductID := 0x0002, Bus := 1, Address := 1\<rparr>,
      11 := zeroDevice\<lparr>VendorID := 0x046d, ProductID := 0xc52b, Bus := 1, Address := 3\<rparr>,
      12 := zeroDevice\<lparr>VendorID := 0x05ac, ProductID := 0x027e, Bus := 1, Address := 4\<rparr>)"

text \<open>
  Scenario A: the root hub \<open>1d6b:0002\<close> of bus 1 at reference 0 and the receiver
  \<open>046d:c52b\<close> with address 2 and port 1 at reference 1.
\<close>

definition storeA :: store where
  "storeA = (\<lambda>r. zeroDevice)
     (0 := zeroDevice\<lparr>VendorID := 0x1d6b, ProductID := 0x0002, Bus := 1, Address := 1\<rparr>,
      1 := zeroDevice\<lparr>VendorID := 0x046d, ProductID := 0xc52b, ProductName := ''USB Receiver'',
             Bus := 1, Address := 2, Port := 1\<rparr>)"

section \<open>The structured backend (libusb)\<close>

definition getUSBVersion :: "int \<Rightarrow> int" where
  "getUSBVersion busNum = (if busNum \<le> 2 then 2 else 3)"

definition getDefaultSpeedForBus :: "int \<Rightarrow> string" where
  "getDefaultSpeedForBus busNum = (if busNum \<le> 2 then ''High (480 Mbps)'' else ''Super (5 Gbps)'')"

definition getProductIDForUSBVersion :: "int \<Rightarrow> 16 word" where
  "getProductIDForUSBVersion busNum = (if busNum \<le> 2 then 0x0002 else 0x0003)"

definition organizeStep :: "(key \<rightharpoonup> ref) \<Rightarrow> (int \<rightharpoonup> ref) \<Rightarrow> key \<Rightarrow> store \<Rightarrow> store" where
  "organizeStep deviceMap rootDevices k h =
     (case deviceMap k of
        None \<Rightarrow> h
      | Some device \<Rightarrow>
          if Port (h device) > 0
          then (case deviceMap (Bus (h device), Port (h device)) of
                  Some par \<Rightarrow> AddChild par device h
                | None \<Rightarrow>
                    (case rootDevices (Bus (h device)) of
                       Some root \<Rightarrow> AddChild root device h
                     | None \<Rightarrow> h))
          else h)"

text \<open>\<open>organizeHierarchy\<close>; \<open>dOrder\<close> is the visit order of \<open>deviceMap\<close>.\<close>

definition organizeHierarchy :: "key list \<Rightarrow> (key \<rightharpoonup> ref) \<Rightarrow> (int \<rightharpoonup> ref) \<Rightarrow> store \<Rightarrow> store" where
  "organizeHierarchy dOrder deviceMap rootDevices h =
     fold (organizeStep deviceMap rootDevices) dOrder h"

text \<open>
  What the detector reads of an opened \<open>gousb.Device\<close>: the fields of its descriptor,
  the \<open>MaxPower\<close> of its configurations in the order the loop over \<open>desc.Configs\<close> visits
  them, and the three string descriptors (\<open>None\<close> when reading one fails).
\<close>

record libusbDevice =
  dBus :: int
  dAddress :: int
  dPort :: int
  dSpeed :: gousbSpeed
  dVendor :: "16 word"
  dProduct :: "16 word"
  dClass :: "8 word"
  dSubClass :: "8 word"
  dProtocol :: "8 word"
  dConfigs :: "nat list"
  dManufacturer :: "string option"
  dProductName :: "string option"
  dSerialNumber :: "string option"

definition deviceFromDesc :: "(8 word \<rightharpoonup> string) \<Rightarrow> libusbDevice \<Rightarrow> USBDevice" where
  "deviceFromDesc cd d =
     (let usbDevice = zeroDevice\<lparr>VendorID := dVendor d, ProductID := dProduct d, Bus := dBus d,
            Address := dAddress d, Port := dPort d, Speed := getSpeedString (dSpeed d)\<rparr>;
          usbDevice = (case dManufacturer d of Some manufacturer \<Rightarrow>
                         usbDevice\<lparr>VendorName := manufacturer\<rparr> | None \<Rightarrow> usbDevice);
          usbDevice = (case dProductName d of Some product \<Rightarrow>
                         usbDevice\<lparr>ProductName := product\<rparr> | None \<Rightarrow> usbDevice);
          usbDevice = (case dSerialNumber d of Some serial \<Rightarrow>
                         usbDevice\<lparr>Serial := serial\<rparr> | None \<Rightarrow> usbDevice);
          usbDevice = usbDevice\<lparr>Class := getClassString cd (dClass d),
                        SubClass := hexEncode (classString cd (dSubClass d)),
                        Protocol := hexEncode (protocolString (dProtocol d))\<rparr>
      in (case filter (\<lambda>p. p > 0) (dConfigs d) of
            [] \<Rightarrow> usbDevice
          | p # ps \<Rightarrow> usbDevice\<lparr>MaxPower := showNat p @ ''mA''\<rparr>))"

definition virtualRootHub :: "int \<Rightarrow> USBDevice" where
  "virtualRootHub busNum =
     zeroDevice\<lparr>VendorID := 0x1d6b, ProductID := getProductIDForUSBVersion busNum,
       VendorName := ''Linux Foundation'',
       ProductName := ''USB '' @ showNat (nat (getUSBVersion busNum)) @ ''.0 Root Hub'',
       Bus := busNum, Address := 1, Port := 0, Speed := getDefaultSpeedForBus busNum,
       Class := ''Hub'', SubClass := ''00'', Protocol := ''00''\<rparr>"

text \<open>
  The state of \<open>getDevicesViaLibusb\<close>: the three maps, the store and the next free
  reference (every \<open>&models.USBDevice{...}\<close> takes a new one).
\<close>

record libusbState =
  busNumbers :: "int set"
  lDeviceMap :: "key \<rightharpoonup> ref"
  lRootDevices :: "int \<rightharpoonup> ref"
  lStore :: store
  lNext :: ref

definition libusbTrack ::
  "(8 word \<rightharpoonup> string) \<Rightarrow> libusbDevice \<Rightarrow> libusbState \<Rightarrow> libusbState" where
  "libusbTrack cd d st =
     st\<lparr>busNumbers := insert (dBus d) (busNumbers st),
        lStore := (lStore st)(lNext st := deviceFromDesc cd d),
        lDeviceMap := (lDeviceMap st)((dBus d, dAddress d) \<mapsto> lNext st),
        lNext := lNext st + 1\<rparr>"

definition libusbAddRoot :: "int \<Rightarrow> libusbState \<Rightarrow> libusbState" where
  "libusbAddRoot busNum st =
     st\<lparr>lStore := (lStore st)(lNext st := virtualRootHub busNum),
        lRootDevices := (lRootDevices st)(busNum \<mapsto> lNext st),
        lDeviceMap := (lDeviceMap st)((busNum, 1) \<mapsto> lNext st),
        lNext := lNext st + 1\<rparr>"

definition libusbRootFor :: "int \<Rightarrow> libusbState \<Rightarrow> libusbState" where
  "libusbRootFor busNum st =
     (if lRootDevices st busNum = None then libusbAddRoot busNum st else st)"

definition libusbInit :: libusbState where
  "libusbInit = \<lparr>busNumbers = {}, lDeviceMap = Map.empty, lRootDevices = Map.empty,
     lStore = (\<lambda>r. zeroDevice), lNext = 0\<rparr>"

text \<open>The state just before \<open>organizeHierarchy\<close> is called; \<open>bOrder\<close> is the visit order
  of \<open>busNumbers\<close>.\<close>

definition libusbCollect ::
  "(8 word \<rightharpoonup> string) \<Rightarrow> int list \<Rightarrow> libusbDevice list \<Rightarrow> libusbState" where
  "libusbCollect cd bOrder devices =
     (let st = fold (libusbTrack cd) devices libusbInit;
          st = fold libusbRootFor bOrder st
      in if busNumbers st = {} then fold libusbAddRoot [1, 2] st else st)"

text \<open>
  \<open>getDevicesViaLibusb\<close>, from the outcome of \<open>OpenDevices\<close> (the opened devices, or the
  text of its error). \<open>dOrder\<close> and \<open>rOrder\<close> are the visit orders of \<open>deviceMap\<close> in
  \<open>organizeHierarchy\<close> and of \<open>rootDevices\<close> in the last loop.
\<close>

definition getDevicesViaLibusb ::
  "(8 word \<rightharpoonup> string) \<Rightarrow> int list \<Rightarrow> key list \<Rightarrow> int list \<Rightarrow> string + libusbDevice list
     \<Rightarrow> detectError + ref list \<times> store" where
  "getDevicesViaLibusb cd bOrder dOrder rOrder opened =
     (case opened of
        Inl err \<Rightarrow>
          (if contains err ''bad access'' then Inl PermissionDenied else Inl (EnumerateFailed err))
      | Inr devices \<Rightarrow>
          (let st = libusbCollect cd bOrder devices;
               h = organizeHierarchy dOrder (lDeviceMap st) (lRootDevices st) (lStore st)
           in Inr (List.map_filter (lRootDevices st) rOrder, h)))"

text \<open>A controller whose ID strings are not hexadecimal numbers of 16 bits.\<close>

definition sampleController :: spUSBController where
  "sampleController = \<lparr>cName = ''USB31Bus'', cHostController = ''AppleT8103USBXHCI'',
     cVendorID = ''apple_vendor_id'', cProductID = ''0x1ffff'', cManufacturer = [], cSerialNum = [],
     cSpeed = [], cCurrentAvailable = [], cCurrentRequired = []\<rparr>"

section \<open>Reference values for the hex parser\<close>

text \<open>
  What "a valid hexadecimal string" and "its value" mean, written without reference to
  the parser's loop: every character is one of the 22 hex digits, and the value is the
  base-16 number they spell.
\<close>

definition isHexChar :: "char \<Rightarrow> bool" where
  "isHexChar c = (c \<in> set ''0123456789abcdefABCDEF'')"

definition hexCharValue :: "char \<Rightarrow> nat" where
  "hexCharValue c =
     (if c \<in> set ''0123456789'' then of_char c - 48
      else if c \<in> set ''abcdef'' then of_char c - 87
      else of_char c - 55)"

definition validHex :: "string \<Rightarrow> bool" where
  "validHex s = (s \<noteq> [] \<and> list_all isHexChar s)"

definition hexValue :: "string \<Rightarrow> nat" where
  "hexValue s = foldl (\<lambda>a c. 16 * a + hexCharValue c) 0 s"

text \<open>A device that libusb reports on bus 1 with address 2, plugged into port 2.\<close>

definition samePortDevice :: libusbDevice where
  "samePortDevice = \<lparr>dBus = 1, dAddress = 2, dPort = 2, dSpeed = SpeedHigh, dVendor = 0x046d,
     dProduct = 0xc52b, dClass = 0x00, dSubClass = 0x00, dProtocol = 0x00, dConfigs = [98],
     dManufacturer = Some ''Logitech'', dProductName = Some ''USB Receiver'',
     dSerialNumber = None\<rparr>"

section \<open>Class labels\<close>

lemma getClassString_known:
  "getClassString cd 0x00 = ''Device'' \<and> getClassString cd 0x01 = ''Audio''
   \<and> getClassString cd 0x02 = ''Communications'' \<and> getClassString cd 0x03 = ''HID''
   \<and> getClassString cd 0x05 = ''Physical'' \<and> getClassString cd 0x06 = ''Image''
   \<and> getClassString cd 0x07 = ''Printer'' \<and> getClassString cd 0x08 = ''Mass Storage''
   \<and> getClassString cd 0x09 = ''Hub'' \<and> getClassString cd 0x0a = ''CDC Data''
   \<and> getClassString cd 0x0b = ''Smart Card'' \<and> getClassString cd 0x0d = ''Content Security''
   \<and> getClassString cd 0x0e = ''Video'' \<and> getClassString cd 0x0f = ''Personal Healthcare''
   \<and> getClassString cd 0x10 = ''Audio/Video'' \<and> getClassString cd 0xdc = ''Diagnostic''
   \<and> getClassString cd 0xe0 = ''Wireless'' \<and> getClassString cd 0xef = ''Miscellaneous''
   \<and> getClassString cd 0xfe = ''Application Specific'' \<and> getClassString cd 0xff = ''Vendor Specific''"
  by (simp add: getClassString_def classNames_def)

lemma getClassString_unknown:
  "cls \<notin> {0x00, 0x01, 0x02, 0x03, 0x05, 0x06, 0x07, 0x08, 0x09, 0x0a, 0x0b, 0x0d, 0x0e, 0x0f,
            0x10, 0xdc, 0xe0, 0xef, 0xfe, 0xff} \<Longrightarrow>
   getClassString cd cls = ''Class '' @ hexEncode (classString cd cls)"
  by (simp add: getClassString_def classNames_def)

lemma classString_decimal:
  "cd 0x04 = None \<Longrightarrow> classString cd 0x04 = ''4''"
  "cd 0xab = None \<Longrightarrow> classString cd 0xab = ''171''"
  by (simp_all add: classString_def showNat.simps hexDigit_def)

lemma hexEncode_decimal: "hexEncode ''4'' = ''34''" "hexEncode ''171'' = ''313731''"
  by (simp_all add: hexEncode_def hexByte_def hexDigit_def)

text \<open>
  Claim C7 on the code. \<open>getClassString\<close> returns the name that its table gives a class
  code. For a code that is not in the table it does not return \<open>Class\<close> and the two
  hexadecimal digits of the code: the class has a \<open>String\<close> method, so the result is
  \<open>Class\<close>, a space and the hexadecimal digits of the bytes of that text. For the codes
  0x04 and 0xab, when the library has no description for them, the text is the decimal
  number, \<open>4\<close> and \<open>171\<close>, and the results are \<open>Class 34\<close> and \<open>Class 313731\<close>.
\<close>

theorem getClassString_prints_text:
  "getClassString cd 0x00 = ''Device'' \<and> getClassString cd 0x01 = ''Audio''
   \<and> getClassString cd 0x02 = ''Communications'' \<and> getClassString cd 0x03 = ''HID''
   \<and> getClassString cd 0x05 = ''Physical'' \<and> getClassString cd 0x06 = ''Image''
   \<and> getClassString cd 0x07 = ''Printer'' \<and> getClassString cd 0x08 = ''Mass Storage''
   \<and> getClassString cd 0x09 = ''Hub'' \<and> getClassString cd 0x0a = ''CDC Data''
   \<and> getClassString cd 0x0b = ''Smart Card'' \<and> getClassString cd 0x0d = ''Content Security''
   \<and> getClassString cd 0x0e = ''Video'' \<and> getClassString cd 0x0f = ''Personal Healthcare''
   \<and> getClassString cd 0x10 = ''Audio/Video'' \<and> getClassString cd 0xdc = ''Diagnostic''
   \<and> getClassString cd 0xe0 = ''Wireless'' \<and> getClassString cd 0xef = ''Miscellaneous''
   \<and> getClassString cd 0xfe = ''Application Specific'' \<and> getClassString cd 0xff = ''Vendor Specific''
   \<and> (cls \<notin> {0x00, 0x01, 0x02, 0x03, 0x05, 0x06, 0x07, 0x08, 0x09, 0x0a, 0x0b, 0x0d, 0x0e, 0x0f,
            0x10, 0xdc, 0xe0, 0xef, 0xfe, 0xff} \<longrightarrow>
        getClassString cd cls = ''Class '' @ hexEncode (classString cd cls))
   \<and> (cd 0x04 = None \<longrightarrow> getClassString cd 0x04 = ''Class 34'')
   \<and> (cd 0xab = None \<longrightarrow> getClassString cd 0xab = ''Class 313731'')"
proof -
  have a: "cd 0x04 = None \<longrightarrow> getClassString cd 0x04 = ''Class 34''"
    using getClassString_unknown [of "0x04" cd] by (simp add: classString_decimal hexEncode_decimal)
  have b: "cd 0xab = None \<longrightarrow> getClassString cd 0xab = ''Class 313731''"
    using getClassString_unknown [of "0xab" cd] by (simp add: classString_decimal hexEncode_decimal)
  from a b getClassString_known [of cd] getClassString_unknown [of cls cd] show ?thesis by blast
qed

theorem getClassString_prints_text_witness:
  "(0x04 :: 8 word) \<notin> {0x00, 0x01, 0x02, 0x03, 0x05, 0x06, 0x07, 0x08, 0x09, 0x0a, 0x0b, 0x0d,
      0x0e, 0x0f, 0x10, 0xdc, 0xe0, 0xef, 0xfe, 0xff}
   \<and> (Map.empty :: 8 word \<rightharpoonup> string) 0x04 = None
   \<and> getClassString Map.empty 0x04 = ''Class 34''
   \<and> getClassString Map.empty 0x04 \<noteq> ''Class 04''
   \<and> getClassString Map.empty 0xab = ''Class 313731''
   \<and> getClassString Map.empty 0xab \<noteq> ''Class ab''"
proof -
  have n: "(0x04 :: 8 word) \<notin> {0x00, 0x01, 0x02, 0x03, 0x05, 0x06, 0x07, 0x08, 0x09, 0x0a, 0x0b, 0x0d,
      0x0e, 0x0f, 0x10, 0xdc, 0xe0, 0xef, 0xfe, 0xff}" by simp
  from getClassString_prints_text [of Map.empty "0x04"] n show ?thesis
    by (simp add: classString_decimal hexEncode_decimal)
qed

section \<open>The hex-ID parser\<close>

lemma digitVal_hex: "digitVal ch = Some d \<and> d < 16 \<longleftrightarrow> isHexChar ch \<and> d = hexCharValue ch"
proof (cases ch)
  case (Char b0 b1 b2 b3 b4 b5 b6 b7)
  then show ?thesis
    by (cases b0; cases b1; cases b2; cases b3; cases b4; cases b5; cases b6; cases b7)
       (auto simp: digitVal_def lower_def isHexChar_def hexCharValue_def)
qed

lemma digitVal_isHex: "isHexChar ch \<Longrightarrow> digitVal ch = Some (hexCharValue ch) \<and> hexCharValue ch < 16"
  using digitVal_hex [of ch "hexCharValue ch"] by simp

lemma digitVal_notHex: "\<not> isHexChar ch \<Longrightarrow> digitVal ch = Some d \<Longrightarrow> 16 \<le> d"
  using digitVal_hex [of ch d] by auto

lemma foldl_hex_mono: "n \<le> foldl (\<lambda>a c. 16 * a + hexCharValue c) n s"
proof (induction s arbitrary: n)
  case Nil
  show ?case by simp
next
  case (Cons c cs)
  have "n \<le> 16 * n + hexCharValue c" by simp
  also have "\<dots> \<le> foldl (\<lambda>a c. 16 * a + hexCharValue c) (16 * n + hexCharValue c) cs"
    by (rule Cons.IH)
  finally show ?case by simp
qed

lemma parseUintLoop_ok:
  "list_all isHexChar s \<Longrightarrow> foldl (\<lambda>a c. 16 * a + hexCharValue c) n s \<le> 65535 \<Longrightarrow>
   parseUintLoop 16 65535 n s = Inr (foldl (\<lambda>a c. 16 * a + hexCharValue c) n s)"
proof (induction s arbitrary: n)
  case Nil
  show ?case by simp
next
  case (Cons c cs)
  let ?n1 = "16 * n + hexCharValue c"
  from Cons.prems have hc: "isHexChar c" and rest: "list_all isHexChar cs" by simp_all
  from Cons.prems have fin: "foldl (\<lambda>a c. 16 * a + hexCharValue c) ?n1 cs \<le> 65535" by simp
  have "?n1 \<le> 65535" using foldl_hex_mono [of ?n1 cs] fin by linarith
  then have small: "n * 16 + hexCharValue c \<le> 65535" and nsmall: "n \<le> 65535" by simp_all
  have step: "parseUintLoop 16 65535 n (c # cs) = parseUintLoop 16 65535 ?n1 cs"
    using digitVal_isHex [OF hc] small nsmall by (simp add: Let_def mult.commute)
  show ?case using Cons.IH [OF rest fin] step by simp
qed

lemma parseUintLoop_bad:
  "n \<le> 65535 \<Longrightarrow>
   \<not> list_all isHexChar s \<or> 65535 < foldl (\<lambda>a c. 16 * a + hexCharValue c) n s \<Longrightarrow>
   \<exists>e. parseUintLoop 16 65535 n s = Inl e"
proof (induction s arbitrary: n)
  case Nil
  then show ?case by simp
next
  case (Cons c cs)
  show ?case
  proof (cases "isHexChar c")
    case False
    then show ?thesis using digitVal_notHex [of c]
      by (cases "digitVal c") (auto simp: Let_def)
  next
    case True
    let ?n1 = "16 * n + hexCharValue c"
    show ?thesis
    proof (cases "?n1 \<le> 65535")
      case False
      then show ?thesis
        using digitVal_isHex [OF True] Cons.prems(1) by (auto simp: Let_def mult.commute)
    next
      case small: True
      from Cons.prems True have p: "\<not> list_all isHexChar cs \<or>
          65535 < foldl (\<lambda>a c. 16 * a + hexCharValue c) ?n1 cs" by simp
      from Cons.IH [OF small p] obtain e where e: "parseUintLoop 16 65535 ?n1 cs = Inl e" by blast
      show ?thesis
        using digitVal_isHex [OF True] e small Cons.prems(1) by (auto simp: Let_def mult.commute)
    qed
  qed
qed

lemma ParseUint_16_16:
  "ParseUint s 16 16 = Inr v \<longleftrightarrow> validHex s \<and> hexValue s \<le> 65535 \<and> v = hexValue s"
proof (cases "validHex s \<and> hexValue s \<le> 65535")
  case True
  then show ?thesis
    using parseUintLoop_ok [of s 0]
    by (auto simp: ParseUint_def validHex_def hexValue_def)
next
  case False
  then have "s = [] \<or> (\<exists>e. parseUintLoop 16 65535 0 s = Inl e)"
    using parseUintLoop_bad [of 0 s] by (auto simp: validHex_def hexValue_def)
  then show ?thesis using False by (auto simp: ParseUint_def)
qed

lemma parseHexID_value:
  "parseHexID hexStr =
     (if validHex (trimPrefix hexStr ''0x'') \<and> hexValue (trimPrefix hexStr ''0x'') \<le> 65535
      then word_of_nat (hexValue (trimPrefix hexStr ''0x'')) else 0)"
proof (cases "ParseUint (trimPrefix hexStr ''0x'') 16 16")
  case (Inl e)
  then have "\<not> (validHex (trimPrefix hexStr ''0x'') \<and> hexValue (trimPrefix hexStr ''0x'') \<le> 65535)"
    using ParseUint_16_16 [of "trimPrefix hexStr ''0x''" "hexValue (trimPrefix hexStr ''0x'')"] by auto
  then show ?thesis using Inl by (auto simp: parseHexID_def)
next
  case (Inr v)
  then have ok: "validHex (trimPrefix hexStr ''0x'') \<and> hexValue (trimPrefix hexStr ''0x'') \<le> 65535
      \<and> v = hexValue (trimPrefix hexStr ''0x'')"
    using ParseUint_16_16 [of "trimPrefix hexStr ''0x''" v] by simp
  then have "hexStr \<noteq> []" by (auto simp: validHex_def trimPrefix_def hasPrefix_def)
  then show ?thesis using Inr ok by (simp add: parseHexID_def)
qed

lemma createRootHub_ids:
  "VendorID (createRootHubFromController controller busNumber) =
     (if parseHexID (cVendorID controller) = 0 then 0x05ac else parseHexID (cVendorID controller))"
  "ProductID (createRootHubFromController controller busNumber) =
     (if parseHexID (cProductID controller) = 0
      then (if contains (cName controller) ''31'' \<or> contains (cHostController controller) ''XHCI''
            then 0x0003 else 0x0002)
      else parseHexID (cProductID controller))"
  by (simp_all add: createRootHubFromController_def Let_def)

text \<open>
  Claim C10. \<open>parseHexID\<close> returns a value for every string and has no error result:
  after an optional \<open>0x\<close> is removed, the empty string, a string with a character that
  is not a hexadecimal digit and a number above 65535 all give 0 (and every other string
  gives its value). A controller whose vendor or product string gives 0 gets the vendor
  0x05ac, or the product 0x0002 or 0x0003.
\<close>

theorem parseHexID_total:
  "(hexStr = [] \<or> \<not> validHex (trimPrefix hexStr ''0x'') \<or> 65535 < hexValue (trimPrefix hexStr ''0x'')
      \<longrightarrow> parseHexID hexStr = 0)
   \<and> (validHex (trimPrefix hexStr ''0x'') \<and> hexValue (trimPrefix hexStr ''0x'') \<le> 65535
      \<longrightarrow> parseHexID hexStr = word_of_nat (hexValue (trimPrefix hexStr ''0x'')))
   \<and> (parseHexID (cVendorID controller) = 0
      \<longrightarrow> VendorID (createRootHubFromController controller busNumber) = 0x05ac)
   \<and> (parseHexID (cProductID controller) = 0
      \<longrightarrow> ProductID (createRootHubFromController controller busNumber) \<in> {0x0002, 0x0003})"
proof -
  have e: "hexStr = [] \<Longrightarrow> \<not> validHex (trimPrefix hexStr ''0x'')"
    by (simp add: validHex_def trimPrefix_def hasPrefix_def)
  show ?thesis
    using e by (auto simp: parseHexID_value [of hexStr] createRootHub_ids)
qed

theorem parseHexID_total_witness:
  "\<not> validHex (trimPrefix ''0xzz'' ''0x'') \<and> parseHexID ''0xzz'' = 0
   \<and> 65535 < hexValue (trimPrefix ''0x1ffff'' ''0x'') \<and> parseHexID ''0x1ffff'' = 0
   \<and> parseHexID ''apple_vendor_id'' = 0
   \<and> parseHexID ''0x05AC'' = 0x05ac
   \<and> VendorID (createRootHubFromController sampleController 1) = 0x05ac
   \<and> ProductID (createRootHubFromController sampleController 1) = 0x0003"
proof -
  have a: "\<not> validHex (trimPrefix ''0xzz'' ''0x'')"
    by (simp add: validHex_def trimPrefix_def hasPrefix_def isHexChar_def)
  have b: "65535 < hexValue (trimPrefix ''0x1ffff'' ''0x'')"
    by (simp add: hexValue_def trimPrefix_def hasPrefix_def hexCharValue_def)
  have c: "\<not> validHex (trimPrefix ''apple_vendor_id'' ''0x'')"
    by (simp add: validHex_def trimPrefix_def hasPrefix_def isHexChar_def)
  have d: "validHex (trimPrefix ''0x05AC'' ''0x'') \<and> hexValue (trimPrefix ''0x05AC'' ''0x'') = 1452"
    by (simp add: validHex_def hexValue_def trimPrefix_def hasPrefix_def isHexChar_def hexCharValue_def)
  have s: "cVendorID sampleController = ''apple_vendor_id''" "cProductID sampleController = ''0x1ffff''"
    "contains (cName sampleController) ''31''"
    by (simp_all add: sampleController_def hasPrefix_def)
  show ?thesis
    using a b c d s
      parseHexID_total [of "''0xzz''" sampleController 1]
      parseHexID_total [of "''0x1ffff''" sampleController 1]
      parseHexID_total [of "''apple_vendor_id''" sampleController 1]
      parseHexID_total [of "''0x05AC''" sampleController 1]
    by (simp add: createRootHub_ids)
qed

section \<open>Speed labels\<close>

lemma contains_self: "contains s s"
  by (cases s) (simp_all add: hasPrefix_def)

lemma hasPrefix_app: "hasPrefix s (p @ q) \<Longrightarrow> hasPrefix s p"
  unfolding hasPrefix_def
proof -
  assume a: "take (length (p @ q)) s = p @ q"
  have "take (length p) (take (length (p @ q)) s) = take (length p) (p @ q)"
    using a by (rule arg_cong)
  then show "take (length p) s = p" by (simp add: min_def)
qed

lemma contains_app: "contains s (p @ q) \<Longrightarrow> contains s p"
proof (induction s)
  case Nil
  then show ?case by simp
next
  case (Cons c cs)
  then show ?case using hasPrefix_app [of "c # cs" p q] by auto
qed

text \<open>
  Claim C8, as the code has it. Each recognized speed code maps to its label. The
  libusb mapping \<open>getSpeedString\<close> gives \<open>Unknown\<close> for every other code. The
  system-profiler mapping gives \<open>Unknown\<close> for the missing (empty) speed only: a
  speed string that is not empty and holds none of the known codes is returned as it is.
\<close>

theorem speed_labels:
  "getSpeedString SpeedLow = ''Low (1.5 Mbps)'' \<and> getSpeedString SpeedFull = ''Full (12 Mbps)''
   \<and> getSpeedString SpeedHigh = ''High (480 Mbps)'' \<and> getSpeedString SpeedSuper = ''Super (5 Gbps)''
   \<and> (code \<notin> {SpeedLow, SpeedFull, SpeedHigh, SpeedSuper} \<longrightarrow> getSpeedString code = ''Unknown'')
   \<and> convertSystemProfilerSpeed ''low_speed'' = ''Low (1.5 Mbps)''
   \<and> convertSystemProfilerSpeed ''full_speed'' = ''Full (12 Mbps)''
   \<and> convertSystemProfilerSpeed ''high_speed'' = ''High (480 Mbps)''
   \<and> convertSystemProfilerSpeed ''super_speed'' = ''Super (5 Gbps)''
   \<and> convertSystemProfilerSpeed ''super_speed_5gbps'' = ''Super (5 Gbps)''
   \<and> convertSystemProfilerSpeed ''super_speed_10gbps'' = ''Super+ (10 Gbps)''
   \<and> convertSystemProfilerSpeed [] = ''Unknown''
   \<and> (spd \<noteq> [] \<and> \<not> contains spd ''low_speed'' \<and> \<not> contains spd ''full_speed''
        \<and> \<not> contains spd ''high_speed'' \<and> \<not> contains spd ''super_speed''
      \<longrightarrow> convertSystemProfilerSpeed spd = spd)"
proof -
  have sup: "contains s ''super_speed_5gbps'' \<or> contains s ''super_speed_10gbps'' \<Longrightarrow> contains s ''super_speed''" for s
    using contains_app [of s "''super_speed''" "''_5gbps''"] contains_app [of s "''super_speed''" "''_10gbps''"]
    by auto
  have a: "getSpeedString SpeedLow = ''Low (1.5 Mbps)'' \<and> getSpeedString SpeedFull = ''Full (12 Mbps)''
   \<and> getSpeedString SpeedHigh = ''High (480 Mbps)'' \<and> getSpeedString SpeedSuper = ''Super (5 Gbps)''"
    by (simp add: getSpeedString_def SpeedLow_def SpeedFull_def SpeedHigh_def SpeedSuper_def)
  have b: "code \<notin> {SpeedLow, SpeedFull, SpeedHigh, SpeedSuper} \<longrightarrow> getSpeedString code = ''Unknown''"
    by (simp add: getSpeedString_def)
  have c: "convertSystemProfilerSpeed ''low_speed'' = ''Low (1.5 Mbps)''
   \<and> convertSystemProfilerSpeed ''full_speed'' = ''Full (12 Mbps)''
   \<and> convertSystemProfilerSpeed ''high_speed'' = ''High (480 Mbps)''
   \<and> convertSystemProfilerSpeed ''super_speed'' = ''Super (5 Gbps)''
   \<and> convertSystemProfilerSpeed ''super_speed_5gbps'' = ''Super (5 Gbps)''
   \<and> convertSystemProfilerSpeed ''super_speed_10gbps'' = ''Super+ (10 Gbps)''
   \<and> convertSystemProfilerSpeed [] = ''Unknown''"
    by (simp add: convertSystemProfilerSpeed_def hasPrefix_def)
  have d: "spd \<noteq> [] \<and> \<not> contains spd ''low_speed'' \<and> \<not> contains spd ''full_speed''
        \<and> \<not> contains spd ''high_speed'' \<and> \<not> contains spd ''super_speed''
      \<longrightarrow> convertSystemProfilerSpeed spd = spd"
    using sup [of spd] by (auto simp: convertSystemProfilerSpeed_def)
  from a b c d show ?thesis by blast
qed

theorem speed_labels_witness:
  "(7 :: int) \<notin> {SpeedLow, SpeedFull, SpeedHigh, SpeedSuper} \<and> getSpeedString 7 = ''Unknown''
   \<and> \<not> contains ''usb4_speed_40gbps'' ''low_speed'' \<and> \<not> contains ''usb4_speed_40gbps'' ''full_speed''
   \<and> \<not> contains ''usb4_speed_40gbps'' ''high_speed'' \<and> \<not> contains ''usb4_speed_40gbps'' ''super_speed''
   \<and> convertSystemProfilerSpeed ''usb4_speed_40gbps'' = ''usb4_speed_40gbps''"
proof -
  have a: "(7 :: int) \<notin> {SpeedLow, SpeedFull, SpeedHigh, SpeedSuper}"
    by (simp add: SpeedLow_def SpeedFull_def SpeedHigh_def SpeedSuper_def)
  have b: "\<not> contains ''usb4_speed_40gbps'' ''low_speed'' \<and> \<not> contains ''usb4_speed_40gbps'' ''full_speed''
   \<and> \<not> contains ''usb4_speed_40gbps'' ''high_speed'' \<and> \<not> contains ''usb4_speed_40gbps'' ''super_speed''"
    by (simp add: hasPrefix_def)
  show ?thesis using a b speed_labels [of 7 "''usb4_speed_40gbps''"] by simp
qed

text \<open>
  The claim as stated asks for \<open>Unknown\<close> on every unrecognized speed string; this one
  is not empty, holds no known code, and comes back unchanged.
\<close>

theorem unrecognized_speed_not_Unknown:
  "''usb4_speed_40gbps'' \<noteq> [] \<and> \<not> contains ''usb4_speed_40gbps'' ''low_speed''
   \<and> \<not> contains ''usb4_speed_40gbps'' ''full_speed'' \<and> \<not> contains ''usb4_speed_40gbps'' ''high_speed''
   \<and> \<not> contains ''usb4_speed_40gbps'' ''super_speed''
   \<and> convertSystemProfilerSpeed ''usb4_speed_40gbps'' = ''usb4_speed_40gbps''
   \<and> convertSystemProfilerSpeed ''usb4_speed_40gbps'' \<noteq> ''Unknown''"
  by (simp add: convertSystemProfilerSpeed_def hasPrefix_def)

section \<open>The flat-list backend\<close>

lemmas str_defs = hasPrefix_def trimPrefix_def toLower_def isASCII_def toLowerChar_def spaceRunes_def
  trimSpace_def splitN2_def isDigit_def isLowerHex_def atoi_def expectLit_def expectN_def
  isReSpace_def

lemma parseUintOrZero_examples:
  "parseUintOrZero ''05ac'' = 0x05ac" "parseUintOrZero ''027e'' = 0x027e"
  "parseUintOrZero ''046d'' = 0x046d" "parseUintOrZero ''c52b'' = 0xc52b"
  by (simp_all add: parseUintOrZero_def ParseUint_def digitVal_def lower_def)

lemma findLsusb_apple:
  "findLsusb ''Bus 001 Device 002: ID 05ac:027e Apple Inc. Internal Keyboard''
     = Some (''001'', ''002'', ''05ac'', ''027e'', ''Apple Inc. Internal Keyboard'')"
  by (simp add: matchLsusbAt_def str_defs)

lemma parseLsusbLine_apple:
  "parseLsusbLine ul ''Bus 001 Device 002: ID 05ac:027e Apple Inc. Internal Keyboard''
     = Some (zeroDevice\<lparr>VendorID := 0x05ac, ProductID := 0x027e, VendorName := ''Apple'',
          ProductName := ''Inc. Internal Keyboard'', Bus := 1, Address := 2,
          Speed := ''Unknown'', Class := ''HID''\<rparr>)"
  unfolding parseLsusbLine_def findLsusb_apple
  by (simp add: parseUintOrZero_examples splitDescription_def lsusbClass_def zeroDevice_def str_defs)

lemma splitLines_apple:
  "splitLines ''Bus 001 Device 002: ID 05ac:027e Apple Inc. Internal Keyboard''
     = [''Bus 001 Device 002: ID 05ac:027e Apple Inc. Internal Keyboard'']"
  by simp

lemma parseLsusbOutput_apple:
  "parseLsusbOutput ul [(1, 2)] (Inr ''Bus 001 Device 002: ID 05ac:027e Apple Inc. Internal Keyboard'')
     = Inr [zeroDevice\<lparr>VendorID := 0x05ac, ProductID := 0x027e, VendorName := ''Apple'',
          ProductName := ''Inc. Internal Keyboard'', Bus := 1, Address := 2,
          Speed := ''Unknown'', Class := ''HID''\<rparr>]"
  unfolding parseLsusbOutput_def splitLines_apple
  by (simp add: lsusbDeviceMap_def lsusbStep_def parseLsusbLine_apple List.map_filter_simps zeroDevice_def)

lemma visitOrder_apple:
  "visitOrder [(1, 2)] (lsusbDeviceMap ul (splitLines ''Bus 001 Device 002: ID 05ac:027e Apple Inc. Internal Keyboard''))"
  unfolding splitLines_apple
  by (simp add: visitOrder_def lsusbDeviceMap_def lsusbStep_def parseLsusbLine_apple zeroDevice_def)

text \<open>
  Claim C4, as the code has it. The table of vendor names of several words has no entry
  \<open>Apple Inc.\<close>, so the description of the line
  \<open>Bus 001 Device 002: ID 05ac:027e Apple Inc. Internal Keyboard\<close> is cut at its first
  space: the record has the vendor name \<open>Apple\<close>, the product name
  \<open>Inc. Internal Keyboard\<close> and, from the keyword \<open>keyboard\<close>, the class \<open>HID\<close>.
\<close>

theorem lsusb_apple_line:
  "visitOrder [(1, 2)] (lsusbDeviceMap ul (splitLines ''Bus 001 Device 002: ID 05ac:027e Apple Inc. Internal Keyboard''))
   \<and> (\<exists>d. parseLsusbOutput ul [(1, 2)] (Inr ''Bus 001 Device 002: ID 05ac:027e Apple Inc. Internal Keyboard'') = Inr [d]
        \<and> VendorName d = ''Apple'' \<and> ProductName d = ''Inc. Internal Keyboard'' \<and> Class d = ''HID''
        \<and> Bus d = 1 \<and> Address d = 2 \<and> VendorID d = 0x05ac \<and> ProductID d = 0x027e \<and> Port d = 0)
   \<and> splitDescription ''Apple Inc. Internal Keyboard'' = (''Apple'', ''Inc. Internal Keyboard'')
   \<and> lsusbClass ul ''Inc. Internal Keyboard'' = ''HID''"
proof -
  have "splitDescription ''Apple Inc. Internal Keyboard'' = (''Apple'', ''Inc. Internal Keyboard'')"
    by (simp add: splitDescription_def str_defs)
  moreover have "lsusbClass ul ''Inc. Internal Keyboard'' = ''HID''"
    by (simp add: lsusbClass_def str_defs)
  ultimately show ?thesis
    using visitOrder_apple by (simp add: parseLsusbOutput_apple zeroDevice_def)
qed

text \<open>
  The names the claim states, \<open>Apple Inc.\<close> and \<open>Internal Keyboard\<close>, are not the
  names of the record. (The line is ASCII, so the lowering of the other strings is not
  consulted; \<open>id\<close> stands for it.)
\<close>

theorem lsusb_apple_line_not_apple_inc:
  "map_option VendorName (parseLsusbLine id ''Bus 001 Device 002: ID 05ac:027e Apple Inc. Internal Keyboard'')
     = Some ''Apple''
   \<and> map_option ProductName (parseLsusbLine id ''Bus 001 Device 002: ID 05ac:027e Apple Inc. Internal Keyboard'')
     = Some ''Inc. Internal Keyboard''
   \<and> map_option VendorName (parseLsusbLine id ''Bus 001 Device 002: ID 05ac:027e Apple Inc. Internal Keyboard'')
     \<noteq> Some ''Apple Inc.''
   \<and> map_option ProductName (parseLsusbLine id ''Bus 001 Device 002: ID 05ac:027e Apple Inc. Internal Keyboard'')
     \<noteq> Some ''Internal Keyboard''"
  by (simp add: parseLsusbLine_apple zeroDevice_def)

subsection \<open>Lines that do not match\<close>

lemma parseLsusbLine_None: "parseLsusbLine ul line = None \<longleftrightarrow> \<not> matchesLsusb line"
proof (cases "line = []")
  case True
  then show ?thesis
    by (simp add: parseLsusbLine_def matchesLsusb_def matchLsusbAt_def expectLit_def hasPrefix_def)
next
  case False
  then show ?thesis
    by (auto simp: parseLsusbLine_def matchesLsusb_def Let_def split: option.splits prod.splits)
qed

lemma matchingRecords_Cons:
  "matchingRecords ul (l # ls) =
     (case parseLsusbLine ul l of None \<Rightarrow> matchingRecords ul ls | Some d \<Rightarrow> d # matchingRecords ul ls)"
  by (simp add: matchingRecords_def split: option.splits)

lemma matchingRecords_filter: "matchingRecords ul (filter matchesLsusb ls) = matchingRecords ul ls"
proof (induction ls)
  case Nil
  show ?case by simp
next
  case (Cons l ls)
  show ?case
  proof (cases "matchesLsusb l")
    case True
    then show ?thesis using Cons.IH by (simp add: matchingRecords_Cons split: option.splits)
  next
    case False
    then have "parseLsusbLine ul l = None" by (simp add: parseLsusbLine_None)
    then show ?thesis using False Cons.IH by (simp add: matchingRecords_Cons)
  qed
qed

lemma fold_lsusbStep:
  "fold (lsusbStep ul) ls m = fold putRecord (matchingRecords ul ls) m"
proof (induction ls arbitrary: m)
  case Nil
  show ?case by (simp add: matchingRecords_def)
next
  case (Cons l ls)
  show ?case
  proof (cases "parseLsusbLine ul l")
    case None
    then have "lsusbStep ul l m = m" by (simp add: lsusbStep_def)
    moreover have "matchingRecords ul (l # ls) = matchingRecords ul ls"
      using None by (simp add: matchingRecords_Cons)
    ultimately show ?thesis using Cons.IH [of m] by simp
  next
    case (Some d)
    then have "lsusbStep ul l m = putRecord d m" by (simp add: lsusbStep_def devKey_def putRecord_def)
    moreover have "matchingRecords ul (l # ls) = d # matchingRecords ul ls"
      using Some by (simp add: matchingRecords_Cons)
    ultimately show ?thesis using Cons.IH [of "putRecord d m"] by simp
  qed
qed

lemma find_app:
  "List.find P (xs @ ys) = (case List.find P xs of None \<Rightarrow> List.find P ys | Some x \<Rightarrow> Some x)"
  by (induction xs) simp_all

lemma fold_update_last:
  "fold putRecord ds m k =
     (case lastWithKey k ds of None \<Rightarrow> m k | Some d \<Rightarrow> Some d)"
proof (induction ds arbitrary: m)
  case Nil
  show ?case by (simp add: lastWithKey_def)
next
  case (Cons d ds)
  have "fold putRecord (d # ds) m k = fold putRecord ds (putRecord d m) k" by simp
  also have "\<dots> = (case lastWithKey k ds of None \<Rightarrow> putRecord d m k | Some x \<Rightarrow> Some x)"
    by (rule Cons.IH)
  also have "\<dots> = (case lastWithKey k (d # ds) of None \<Rightarrow> m k | Some x \<Rightarrow> Some x)"
    by (cases "List.find (\<lambda>d. devKey d = k) (rev ds)")
       (auto simp: lastWithKey_def find_app putRecord_def)
  finally show ?case .
qed

lemma lsusbDeviceMap_last:
  "lsusbDeviceMap ul ls k = lastWithKey k (matchingRecords ul ls)"
  by (simp add: lsusbDeviceMap_def fold_lsusbStep fold_update_last split: option.splits)

lemma lastWithKey_key: "lastWithKey k ds = Some d \<Longrightarrow> devKey d = k"
  by (auto simp: lastWithKey_def find_Some_iff)

lemma map_filter_keys:
  "set ks \<subseteq> dom m \<Longrightarrow> (\<And>k d. m k = Some d \<Longrightarrow> f d = k) \<Longrightarrow> map f (List.map_filter m ks) = ks"
proof (induction ks)
  case Nil
  show ?case by simp
next
  case (Cons k ks)
  then obtain d where d: "m k = Some d" by auto
  then have "f d = k" by (rule Cons.prems(2))
  then show ?case using Cons d by simp
qed

lemma set_map_filter: "set (List.map_filter m ks) = {d. \<exists>k\<in>set ks. m k = Some d}"
  by (induction ks) (auto split: option.splits)

text \<open>
  Claim C9, as the code has it. \<open>parseLsusbOutput\<close> returns no error once \<open>lsusb\<close> has
  run. Lines that do not match the pattern, empty ones among them, are skipped, and two
  outputs with the same matching lines give the same records. The records are kept in a
  map keyed by bus and address: there is one record for each bus and address among the
  matching lines, the record of the last matching line with that bus and address.
\<close>

theorem parseLsusbOutput_skips:
  assumes order: "visitOrder order (lsusbDeviceMap ul (splitLines output))"
    and same: "filter matchesLsusb (splitLines output') = filter matchesLsusb (splitLines output)"
  shows "\<exists>ds. parseLsusbOutput ul order (Inr output) = Inr ds
           \<and> parseLsusbOutput ul order (Inr output') = Inr ds
           \<and> distinct (map devKey ds)
           \<and> set ds = {d. \<exists>k. lastWithKey k (matchingRecords ul (splitLines output)) = Some d}"
proof -
  let ?m = "lsusbDeviceMap ul (splitLines output)"
  let ?ds = "List.map_filter ?m order"
  have m: "?m = (\<lambda>k. lastWithKey k (matchingRecords ul (splitLines output)))"
    by (rule ext) (rule lsusbDeviceMap_last)
  have "matchingRecords ul (splitLines output') = matchingRecords ul (splitLines output)"
    using matchingRecords_filter [of ul "splitLines output'"] matchingRecords_filter [of ul "splitLines output"] same
    by simp
  then have m': "lsusbDeviceMap ul (splitLines output') = ?m"
    by (simp add: lsusbDeviceMap_def fold_lsusbStep)
  have keys: "map devKey ?ds = order"
  proof (rule map_filter_keys)
    show "set order \<subseteq> dom ?m" using order by (simp add: visitOrder_def)
    show "devKey d = k" if "?m k = Some d" for k d
      using that lastWithKey_key [of k "matchingRecords ul (splitLines output)" d]
      by (simp add: lsusbDeviceMap_last)
  qed
  have dist: "distinct (map devKey ?ds)" using order keys by (simp add: visitOrder_def)
  have "set ?ds = {d. \<exists>k\<in>set order. ?m k = Some d}" by (rule set_map_filter)
  also have "\<dots> = {d. \<exists>k. ?m k = Some d}" using order by (auto simp: visitOrder_def)
  also have "\<dots> = {d. \<exists>k. lastWithKey k (matchingRecords ul (splitLines output)) = Some d}"
    by (simp add: lsusbDeviceMap_last)
  finally have st: "set ?ds = {d. \<exists>k. lastWithKey k (matchingRecords ul (splitLines output)) = Some d}" .
  show ?thesis
    using dist st m' by (intro exI [of _ ?ds]) (simp add: parseLsusbOutput_def)
qed


lemma splitLines_junk:
  "splitLines (''??'' @ [CHR 0x0A] @ ''Bus 001 Device 002: ID 046d:c52b Logitech USB Receiver'' @ [CHR 0x0A])
     = [''??'', ''Bus 001 Device 002: ID 046d:c52b Logitech USB Receiver'', []]"
  "splitLines ''Bus 001 Device 002: ID 046d:c52b Logitech USB Receiver''
     = [''Bus 001 Device 002: ID 046d:c52b Logitech USB Receiver'']"
  by simp_all

lemma findLsusb_receiver:
  "findLsusb ''Bus 001 Device 002: ID 046d:c52b Logitech USB Receiver''
     = Some (''001'', ''002'', ''046d'', ''c52b'', ''Logitech USB Receiver'')"
  "findLsusb ''??'' = None" "findLsusb [] = None"
  by (simp_all add: matchLsusbAt_def str_defs)

lemma parseLsusbLine_receiver:
  "parseLsusbLine ul ''Bus 001 Device 002: ID 046d:c52b Logitech USB Receiver''
     = Some (zeroDevice\<lparr>VendorID := 0x046d, ProductID := 0xc52b, VendorName := ''Logitech'',
          ProductName := ''USB Receiver'', Bus := 1, Address := 2,
          Speed := ''Unknown'', Class := ''Device''\<rparr>)"
  "parseLsusbLine ul ''??'' = None" "parseLsusbLine ul [] = None"
  unfolding parseLsusbLine_def findLsusb_receiver
  by (simp_all add: parseUintOrZero_examples splitDescription_def lsusbClass_def zeroDevice_def str_defs)

lemma matchesLsusb_receiver:
  "matchesLsusb ''Bus 001 Device 002: ID 046d:c52b Logitech USB Receiver''"
  "\<not> matchesLsusb ''??''" "\<not> matchesLsusb []"
  by (simp_all add: matchesLsusb_def findLsusb_receiver del: findLsusb.simps)

theorem parseLsusbOutput_skips_witness:
  "visitOrder [(1, 2)] (lsusbDeviceMap id (splitLines
      (''??'' @ [CHR 0x0A] @ ''Bus 001 Device 002: ID 046d:c52b Logitech USB Receiver'' @ [CHR 0x0A])))
   \<and> filter matchesLsusb (splitLines ''Bus 001 Device 002: ID 046d:c52b Logitech USB Receiver'')
       = filter matchesLsusb (splitLines
           (''??'' @ [CHR 0x0A] @ ''Bus 001 Device 002: ID 046d:c52b Logitech USB Receiver'' @ [CHR 0x0A]))
   \<and> (\<exists>ds. parseLsusbOutput id [(1, 2)] (Inr
           (''??'' @ [CHR 0x0A] @ ''Bus 001 Device 002: ID 046d:c52b Logitech USB Receiver'' @ [CHR 0x0A])) = Inr ds
         \<and> parseLsusbOutput id [(1, 2)] (Inr ''Bus 001 Device 002: ID 046d:c52b Logitech USB Receiver'') = Inr ds
         \<and> distinct (map devKey ds)
         \<and> set ds = {d. \<exists>k. lastWithKey k (matchingRecords id (splitLines
              (''??'' @ [CHR 0x0A] @ ''Bus 001 Device 002: ID 046d:c52b Logitech USB Receiver'' @ [CHR 0x0A]))) = Some d})"
proof -
  have a: "visitOrder [(1, 2)] (lsusbDeviceMap id (splitLines
      (''??'' @ [CHR 0x0A] @ ''Bus 001 Device 002: ID 046d:c52b Logitech USB Receiver'' @ [CHR 0x0A])))"
    unfolding splitLines_junk
    by (simp add: visitOrder_def lsusbDeviceMap_def lsusbStep_def parseLsusbLine_receiver zeroDevice_def)
  have b: "filter matchesLsusb (splitLines ''Bus 001 Device 002: ID 046d:c52b Logitech USB Receiver'')
       = filter matchesLsusb (splitLines
           (''??'' @ [CHR 0x0A] @ ''Bus 001 Device 002: ID 046d:c52b Logitech USB Receiver'' @ [CHR 0x0A]))"
    unfolding splitLines_junk by (simp add: matchesLsusb_receiver)
  from a b parseLsusbOutput_skips [OF a b] show ?thesis by blast
qed

lemma splitLines_dup:
  "splitLines (''Bus 001 Device 002: ID 05ac:027e A B'' @ [CHR 0x0A] @ ''Bus 001 Device 002: ID 046d:c52b C D'')
     = [''Bus 001 Device 002: ID 05ac:027e A B'', ''Bus 001 Device 002: ID 046d:c52b C D'']"
  by simp

lemma findLsusb_dup:
  "findLsusb ''Bus 001 Device 002: ID 05ac:027e A B'' = Some (''001'', ''002'', ''05ac'', ''027e'', ''A B'')"
  "findLsusb ''Bus 001 Device 002: ID 046d:c52b C D'' = Some (''001'', ''002'', ''046d'', ''c52b'', ''C D'')"
  by (simp_all add: matchLsusbAt_def str_defs)

lemma parseLsusbLine_dup:
  "parseLsusbLine ul ''Bus 001 Device 002: ID 05ac:027e A B''
     = Some (zeroDevice\<lparr>VendorID := 0x05ac, ProductID := 0x027e, VendorName := ''A'',
          ProductName := ''B'', Bus := 1, Address := 2, Speed := ''Unknown'', Class := ''Device''\<rparr>)"
  "parseLsusbLine ul ''Bus 001 Device 002: ID 046d:c52b C D''
     = Some (zeroDevice\<lparr>VendorID := 0x046d, ProductID := 0xc52b, VendorName := ''C'',
          ProductName := ''D'', Bus := 1, Address := 2, Speed := ''Unknown'', Class := ''Device''\<rparr>)"
  unfolding parseLsusbLine_def findLsusb_dup
  by (simp_all add: parseUintOrZero_examples splitDescription_def lsusbClass_def zeroDevice_def str_defs)

lemma matchesLsusb_dup:
  "matchesLsusb ''Bus 001 Device 002: ID 05ac:027e A B''"
  "matchesLsusb ''Bus 001 Device 002: ID 046d:c52b C D''"
  by (simp_all add: matchesLsusb_def findLsusb_dup del: findLsusb.simps)

text \<open>
  Two matching lines with the same bus and address give one record, not one each: the
  second replaces the first in the map. (The lines are ASCII, so the lowering of the other
  strings is not consulted; \<open>id\<close> stands for it.)
\<close>

theorem parseLsusbOutput_same_address_once:
  "length (filter matchesLsusb (splitLines
      (''Bus 001 Device 002: ID 05ac:027e A B'' @ [CHR 0x0A] @ ''Bus 001 Device 002: ID 046d:c52b C D''))) = 2
   \<and> visitOrder [(1, 2)] (lsusbDeviceMap id (splitLines
      (''Bus 001 Device 002: ID 05ac:027e A B'' @ [CHR 0x0A] @ ''Bus 001 Device 002: ID 046d:c52b C D'')))
   \<and> parseLsusbOutput id [(1, 2)] (Inr
      (''Bus 001 Device 002: ID 05ac:027e A B'' @ [CHR 0x0A] @ ''Bus 001 Device 002: ID 046d:c52b C D''))
     = Inr [zeroDevice\<lparr>VendorID := 0x046d, ProductID := 0xc52b, VendorName := ''C'',
          ProductName := ''D'', Bus := 1, Address := 2, Speed := ''Unknown'', Class := ''Device''\<rparr>]"
  unfolding parseLsusbOutput_def splitLines_dup
  by (simp add: matchesLsusb_dup visitOrder_def lsusbDeviceMap_def lsusbStep_def
      parseLsusbLine_dup zeroDevice_def)

section \<open>The tree backend and the merge\<close>















lemma storeD_fields:
  "Bus (storeD 0) = 1" "Address (storeD 0) = 1" "Bus (storeD 1) = 1" "Address (storeD 1) = 3"
  "Children (storeD 0) = []" "Children (storeD 1) = []"
  by (simp_all add: storeD_def zeroDevice_def)

lemma visitOrder_two:
  assumes "visitOrder ks [a \<mapsto> x, b \<mapsto> y]" "a \<noteq> b"
  shows "ks = [a, b] \<or> ks = [b, a]"
proof -
  from assms have d: "distinct ks" and s: "set ks = {a, b}" by (auto simp: visitOrder_def)
  then have "length ks = 2" using distinct_card [OF d] assms(2) by simp
  then obtain u v where ks: "ks = [u, v]"
    by (metis One_nat_def Suc_1 length_0_conv length_Suc_conv)
  with d s show ?thesis by auto
qed


lemma merge_D_index:
  assumes "Bus (h0 r1) = 1" "Address (h0 r1) = 1" "Bus (h0 r3) = 1" "Address (h0 r3) = 3" "r1 \<noteq> r3"
  shows "fold (mergeIndex hierarchyD) [r1, r3] (Map.empty, Map.empty, h0)
      = ([(1, 1) \<mapsto> r1, (1, 3) \<mapsto> r3], [1 \<mapsto> r1],
         h0(r1 := (h0 r1)\<lparr>Port := 1\<rparr>, r3 := (h0 r3)\<lparr>Port := 2, Speed := ''High (480 Mbps)''\<rparr>))"
  using assms by (simp add: mergeIndex_def hierarchyD_def convertSpeed_def Let_def)

lemma merge_D_attach:
  assumes "r1 \<noteq> r3" "hOrder = [(1, 1), (1, 3)] \<or> hOrder = [(1, 3), (1, 1)]"
  shows "fold (mergeAttach hierarchyD [(1, 1) \<mapsto> r1, (1, 3) \<mapsto> r3]) hOrder h
      = AddChild r1 r3 h"
  using assms by (auto simp: mergeAttach_def hierarchyD_def)












section \<open>The structured backend\<close>

lemma showNat_small: "showNat 2 = ''2''" "showNat 3 = ''3''"
  by (simp_all add: showNat.simps hexDigit_def)

lemma virtualRootHub_Port: "Port (virtualRootHub busNum) = 0"
  by (simp add: virtualRootHub_def zeroDevice_def)

lemma virtualRootHub_1:
  "virtualRootHub 1 = \<lparr>VendorID = 0x1d6b, ProductID = 0x0002, VendorName = ''Linux Foundation'',
      ProductName = ''USB 2.0 Root Hub'', Bus = 1, Port = 0, Address = 1, Serial = [],
      Speed = ''High (480 Mbps)'', Class = ''Hub'', SubClass = ''00'', Protocol = ''00'',
      MaxPower = [], Children = []\<rparr>"
  by (simp add: virtualRootHub_def zeroDevice_def getProductIDForUSBVersion_def getUSBVersion_def
      getDefaultSpeedForBus_def showNat_small)

lemma virtualRootHub_2:
  "virtualRootHub 2 = \<lparr>VendorID = 0x1d6b, ProductID = 0x0002, VendorName = ''Linux Foundation'',
      ProductName = ''USB 2.0 Root Hub'', Bus = 2, Port = 0, Address = 1, Serial = [],
      Speed = ''High (480 Mbps)'', Class = ''Hub'', SubClass = ''00'', Protocol = ''00'',
      MaxPower = [], Children = []\<rparr>"
  by (simp add: virtualRootHub_def zeroDevice_def getProductIDForUSBVersion_def getUSBVersion_def
      getDefaultSpeedForBus_def showNat_small)

lemma libusbCollect_none:
  "libusbCollect cd [] [] = \<lparr>busNumbers = {}, lDeviceMap = [(1, 1) \<mapsto> 0, (2, 1) \<mapsto> 1],
      lRootDevices = [1 \<mapsto> 0, 2 \<mapsto> 1],
      lStore = (\<lambda>r. zeroDevice)(0 := virtualRootHub 1, 1 := virtualRootHub 2), lNext = 2\<rparr>"
  by (simp add: libusbCollect_def libusbInit_def libusbAddRoot_def)

lemma organize_none:
  assumes "dOrder = [(1, 1), (2, 1)] \<or> dOrder = [(2, 1), (1, 1)]"
  shows "organizeHierarchy dOrder [(1, 1) \<mapsto> 0, (2, 1) \<mapsto> 1] [1 \<mapsto> 0, 2 \<mapsto> 1]
      ((\<lambda>r. zeroDevice)(0 := virtualRootHub 1, 1 := virtualRootHub 2))
    = (\<lambda>r. zeroDevice)(0 := virtualRootHub 1, 1 := virtualRootHub 2)"
  using assms by (auto simp: organizeHierarchy_def organizeStep_def virtualRootHub_Port)

text \<open>
  Claim C5. When \<open>OpenDevices\<close> succeeds with no device, so that no bus number is seen,
  \<open>getDevicesViaLibusb\<close> returns no error and exactly two roots, in the order in which
  \<open>rootDevices\<close> is visited: the synthesized hubs of bus 1 and bus 2, each with address 1,
  the vendor 0x1d6b (Linux Foundation), product 0x0002 and speed \<open>High (480 Mbps)\<close>, and
  no children. The default speed and product of a bus are \<open>High (480 Mbps)\<close> and 0x0002
  up to bus 2, \<open>Super (5 Gbps)\<close> and 0x0003 above.
\<close>

theorem default_root_hubs:
  assumes "visitOrder dOrder (lDeviceMap (libusbCollect cd [] []))"
    and "visitOrder rOrder (lRootDevices (libusbCollect cd [] []))"
  shows "\<exists>roots h. getDevicesViaLibusb cd [] dOrder rOrder (Inr []) = Inr (roots, h)
      \<and> (roots = [0, 1] \<or> roots = [1, 0])
      \<and> h 0 = \<lparr>VendorID = 0x1d6b, ProductID = 0x0002, VendorName = ''Linux Foundation'',
            ProductName = ''USB 2.0 Root Hub'', Bus = 1, Port = 0, Address = 1, Serial = [],
            Speed = ''High (480 Mbps)'', Class = ''Hub'', SubClass = ''00'', Protocol = ''00'',
            MaxPower = [], Children = []\<rparr>
      \<and> h 1 = \<lparr>VendorID = 0x1d6b, ProductID = 0x0002, VendorName = ''Linux Foundation'',
            ProductName = ''USB 2.0 Root Hub'', Bus = 2, Port = 0, Address = 1, Serial = [],
            Speed = ''High (480 Mbps)'', Class = ''Hub'', SubClass = ''00'', Protocol = ''00'',
            MaxPower = [], Children = []\<rparr>
      \<and> (busNum \<le> 2 \<longrightarrow> getDefaultSpeedForBus busNum = ''High (480 Mbps)''
            \<and> getProductIDForUSBVersion busNum = 0x0002)
      \<and> (busNum > 2 \<longrightarrow> getDefaultSpeedForBus busNum = ''Super (5 Gbps)''
            \<and> getProductIDForUSBVersion busNum = 0x0003)"
proof -
  have d: "dOrder = [(1, 1), (2, 1)] \<or> dOrder = [(2, 1), (1, 1)]"
    using assms(1) unfolding libusbCollect_none by (simp add: visitOrder_two)
  have r: "rOrder = [1, 2] \<or> rOrder = [2, 1]"
    using assms(2) unfolding libusbCollect_none by (simp add: visitOrder_two)
  have g: "getDevicesViaLibusb cd [] dOrder rOrder (Inr []) =
      Inr (List.map_filter [1 \<mapsto> 0, 2 \<mapsto> 1] rOrder,
           (\<lambda>r. zeroDevice)(0 := virtualRootHub 1, 1 := virtualRootHub 2))"
  proof -
    have "getDevicesViaLibusb cd [] dOrder rOrder (Inr []) =
        Inr (List.map_filter (lRootDevices (libusbCollect cd [] [])) rOrder,
             organizeHierarchy dOrder (lDeviceMap (libusbCollect cd [] []))
               (lRootDevices (libusbCollect cd [] [])) (lStore (libusbCollect cd [] [])))"
      by (simp add: getDevicesViaLibusb_def Let_def)
    then show ?thesis
      unfolding libusbCollect_none by (simp only: libusbState.simps organize_none [OF d])
  qed
  have roots: "List.map_filter [1 \<mapsto> (0::nat), 2 \<mapsto> 1] rOrder = [0, 1]
      \<or> List.map_filter [1 \<mapsto> (0::nat), 2 \<mapsto> 1] rOrder = [1, 0]"
    using r by auto
  have rule: "(busNum \<le> 2 \<longrightarrow> getDefaultSpeedForBus busNum = ''High (480 Mbps)''
            \<and> getProductIDForUSBVersion busNum = 0x0002)
      \<and> (busNum > 2 \<longrightarrow> getDefaultSpeedForBus busNum = ''Super (5 Gbps)''
            \<and> getProductIDForUSBVersion busNum = 0x0003)"
    by (simp add: getDefaultSpeedForBus_def getProductIDForUSBVersion_def)
  show ?thesis
    unfolding g using roots rule
    by (intro exI [of _ "List.map_filter [1 \<mapsto> (0::nat), 2 \<mapsto> 1] rOrder"]
          exI [of _ "(\<lambda>r. zeroDevice)(0 := virtualRootHub 1, 1 := virtualRootHub 2)"])
       (simp add: virtualRootHub_1 virtualRootHub_2)
qed

theorem default_root_hubs_witness:
  "visitOrder [(2, 1), (1, 1)] (lDeviceMap (libusbCollect Map.empty [] []))
   \<and> visitOrder [2, 1] (lRootDevices (libusbCollect Map.empty [] []))
   \<and> (\<exists>roots h. getDevicesViaLibusb Map.empty [] [(2, 1), (1, 1)] [2, 1] (Inr []) = Inr (roots, h)
        \<and> (roots = [0, 1] \<or> roots = [1, 0])
        \<and> Bus (h 0) = 1 \<and> Bus (h 1) = 2 \<and> Address (h 0) = 1 \<and> Address (h 1) = 1
        \<and> VendorID (h 0) = 0x1d6b \<and> VendorID (h 1) = 0x1d6b
        \<and> Speed (h 0) = ''High (480 Mbps)'' \<and> Speed (h 1) = ''High (480 Mbps)'')
   \<and> getDefaultSpeedForBus 3 = ''Super (5 Gbps)'' \<and> getProductIDForUSBVersion 3 = 0x0003"
proof -
  have a: "visitOrder [(2, 1), (1, 1)] (lDeviceMap (libusbCollect Map.empty [] []))"
    unfolding libusbCollect_none by (auto simp: visitOrder_def)
  have b: "visitOrder [2, 1] (lRootDevices (libusbCollect Map.empty [] []))"
    unfolding libusbCollect_none by (auto simp: visitOrder_def)
  from default_root_hubs [OF a b, of 3] obtain roots h where
    h: "getDevicesViaLibusb Map.empty [] [(2, 1), (1, 1)] [2, 1] (Inr []) = Inr (roots, h)"
      "roots = [0, 1] \<or> roots = [1, 0]"
      "h 0 = \<lparr>VendorID = 0x1d6b, ProductID = 0x0002, VendorName = ''Linux Foundation'',
            ProductName = ''USB 2.0 Root Hub'', Bus = 1, Port = 0, Address = 1, Serial = [],
            Speed = ''High (480 Mbps)'', Class = ''Hub'', SubClass = ''00'', Protocol = ''00'',
            MaxPower = [], Children = []\<rparr>"
      "h 1 = \<lparr>VendorID = 0x1d6b, ProductID = 0x0002, VendorName = ''Linux Foundation'',
            ProductName = ''USB 2.0 Root Hub'', Bus = 2, Port = 0, Address = 1, Serial = [],
            Speed = ''High (480 Mbps)'', Class = ''Hub'', SubClass = ''00'', Protocol = ''00'',
            MaxPower = [], Children = []\<rparr>"
      "getDefaultSpeedForBus 3 = ''Super (5 Gbps)''" "getProductIDForUSBVersion 3 = 0x0003"
    by auto
  have "Bus (h 0) = 1 \<and> Bus (h 1) = 2 \<and> Address (h 0) = 1 \<and> Address (h 1) = 1
        \<and> VendorID (h 0) = 0x1d6b \<and> VendorID (h 1) = 0x1d6b
        \<and> Speed (h 0) = ''High (480 Mbps)'' \<and> Speed (h 1) = ''High (480 Mbps)''"
    using h(3,4) by simp
  with a b h(1,2,5,6) show ?thesis by blast
qed

subsection \<open>A device whose port is its own address\<close>

lemma libusbCollect_samePort:
  "libusbCollect cd [1] [samePortDevice] =
     \<lparr>busNumbers = {1}, lDeviceMap = [(1, 2) \<mapsto> 0, (1, 1) \<mapsto> 1], lRootDevices = [1 \<mapsto> 1],
      lStore = (\<lambda>r. zeroDevice)(0 := deviceFromDesc cd samePortDevice, 1 := virtualRootHub 1),
      lNext = 2\<rparr>"
  by (simp add: libusbCollect_def libusbInit_def libusbTrack_def libusbRootFor_def
      libusbAddRoot_def samePortDevice_def)

lemma deviceFromDesc_samePort:
  "Bus (deviceFromDesc cd samePortDevice) = 1" "Address (deviceFromDesc cd samePortDevice) = 2"
  "Port (deviceFromDesc cd samePortDevice) = 2" "Children (deviceFromDesc cd samePortDevice) = []"
  by (simp_all add: deviceFromDesc_def samePortDevice_def zeroDevice_def Let_def)

text \<open>
  The subclass and the protocol of a record are the hexadecimal digits of the bytes of a
  text, too: of the description of the subclass, and of the protocol in decimal.
\<close>

lemma deviceFromDesc_SubClass_Protocol:
  "SubClass (deviceFromDesc cd d) = hexEncode (classString cd (dSubClass d))"
  "Protocol (deviceFromDesc cd d) = hexEncode (showNat (unat (dProtocol d)))"
  by (simp_all add: deviceFromDesc_def protocolString_def Let_def split: option.splits list.splits)

lemma deviceFromDesc_audio:
  assumes "cd (dSubClass d) = Some ''audio''" "dProtocol d = 2"
  shows "SubClass (deviceFromDesc cd d) = ''617564696f''" "Protocol (deviceFromDesc cd d) = ''32''"
  using assms
  by (simp_all add: deviceFromDesc_SubClass_Protocol classString_def hexEncode_def hexByte_def
      hexDigit_def showNat.simps)

lemma virtualRootHub_Children: "Children (virtualRootHub busNum) = []"
  by (simp add: virtualRootHub_def zeroDevice_def)

lemma organize_samePort:
  assumes "dOrder = [(1, 1), (1, 2)] \<or> dOrder = [(1, 2), (1, 1)]"
  shows "organizeHierarchy dOrder [(1, 2) \<mapsto> 0, (1, 1) \<mapsto> 1] [1 \<mapsto> 1]
      ((\<lambda>r. zeroDevice)(0 := deviceFromDesc cd samePortDevice, 1 := virtualRootHub 1))
    = AddChild 0 0 ((\<lambda>r. zeroDevice)(0 := deviceFromDesc cd samePortDevice, 1 := virtualRootHub 1))"
  using assms
  by (auto simp: organizeHierarchy_def organizeStep_def virtualRootHub_Port deviceFromDesc_samePort
      AddChild_def)

lemma getDevices_samePort:
  assumes "dOrder = [(1, 1), (1, 2)] \<or> dOrder = [(1, 2), (1, 1)]"
  shows "getDevicesViaLibusb cd [1] dOrder [1] (Inr [samePortDevice]) =
     Inr ([1], AddChild 0 0 ((\<lambda>r. zeroDevice)(0 := deviceFromDesc cd samePortDevice, 1 := virtualRootHub 1)))"
proof -
  have "getDevicesViaLibusb cd [1] dOrder [1] (Inr [samePortDevice]) =
      Inr (List.map_filter (lRootDevices (libusbCollect cd [1] [samePortDevice])) [1],
           organizeHierarchy dOrder (lDeviceMap (libusbCollect cd [1] [samePortDevice]))
             (lRootDevices (libusbCollect cd [1] [samePortDevice]))
             (lStore (libusbCollect cd [1] [samePortDevice])))"
    by (simp add: getDevicesViaLibusb_def Let_def)
  then show ?thesis
    unfolding libusbCollect_samePort
    by (simp only: libusbState.simps organize_samePort [OF assms]) simp
qed

text \<open>
  Claim C1 at a device that libusb reports on bus 1 with address 2 and port 2:
  \<open>organizeHierarchy\<close> finds under the key of bus 1 and port 2 the device itself and
  appends it to its own children. The device is its own child, and the root hub of the
  bus, which is all that is returned, has no child.
\<close>

theorem same_port_device_own_child:
  "set [1] = busNumbers (libusbCollect cd [1] [samePortDevice])
   \<and> visitOrder [(1, 1), (1, 2)] (lDeviceMap (libusbCollect cd [1] [samePortDevice]))
   \<and> visitOrder [(1, 2), (1, 1)] (lDeviceMap (libusbCollect cd [1] [samePortDevice]))
   \<and> visitOrder [1] (lRootDevices (libusbCollect cd [1] [samePortDevice]))
   \<and> (\<exists>h. getDevicesViaLibusb cd [1] [(1, 1), (1, 2)] [1] (Inr [samePortDevice]) = Inr ([1], h)
         \<and> Bus (h 0) = 1 \<and> Address (h 0) = 2 \<and> Port (h 0) = 2
         \<and> Children (h 0) = [0] \<and> Children (h 1) = [])
   \<and> (\<exists>h. getDevicesViaLibusb cd [1] [(1, 2), (1, 1)] [1] (Inr [samePortDevice]) = Inr ([1], h)
         \<and> Bus (h 0) = 1 \<and> Address (h 0) = 2 \<and> Port (h 0) = 2
         \<and> Children (h 0) = [0] \<and> Children (h 1) = [])"
proof -
  have v: "set [1] = busNumbers (libusbCollect cd [1] [samePortDevice])"
    "visitOrder [(1, 1), (1, 2)] (lDeviceMap (libusbCollect cd [1] [samePortDevice]))"
    "visitOrder [(1, 2), (1, 1)] (lDeviceMap (libusbCollect cd [1] [samePortDevice]))"
    "visitOrder [1] (lRootDevices (libusbCollect cd [1] [samePortDevice]))"
    unfolding libusbCollect_samePort by (auto simp: visitOrder_def)
  let ?h = "AddChild 0 0 ((\<lambda>r. zeroDevice)(0 := deviceFromDesc cd samePortDevice, 1 := virtualRootHub 1))"
  have h: "Bus (?h 0) = 1 \<and> Address (?h 0) = 2 \<and> Port (?h 0) = 2
         \<and> Children (?h 0) = [0] \<and> Children (?h 1) = []"
    by (simp add: AddChild_def deviceFromDesc_samePort virtualRootHub_Children)
  have a: "\<exists>h. getDevicesViaLibusb cd [1] [(1, 1), (1, 2)] [1] (Inr [samePortDevice]) = Inr ([1], h)
         \<and> Bus (h 0) = 1 \<and> Address (h 0) = 2 \<and> Port (h 0) = 2
         \<and> Children (h 0) = [0] \<and> Children (h 1) = []"
    using h getDevices_samePort [of "[(1, 1), (1, 2)]"] by (intro exI [of _ ?h]) simp
  have b: "\<exists>h. getDevicesViaLibusb cd [1] [(1, 2), (1, 1)] [1] (Inr [samePortDevice]) = Inr ([1], h)
         \<and> Bus (h 0) = 1 \<and> Address (h 0) = 2 \<and> Port (h 0) = 2
         \<and> Children (h 0) = [0] \<and> Children (h 1) = []"
    using h getDevices_samePort [of "[(1, 2), (1, 1)]"] by (intro exI [of _ ?h]) simp
  from v a b show ?thesis by blast
qed

section \<open>Reconstruction without hints\<close>

lemma storeA_fields:
  "Bus (storeA 0) = 1" "Address (storeA 0) = 1" "Port (storeA 0) = 0" "Children (storeA 0) = []"
  "Bus (storeA 1) = 1" "Address (storeA 1) = 2" "Port (storeA 1) = 1" "Children (storeA 1) = []"
  by (simp_all add: storeA_def zeroDevice_def)

lemma merge_A_index:
  "fold (mergeIndex Map.empty) [0, 1] (Map.empty, Map.empty, storeA)
     = ([(1, 1) \<mapsto> 0, (1, 2) \<mapsto> 1], [1 \<mapsto> 0], storeA)"
  by (simp add: mergeIndex_def storeA_fields Let_def del: One_nat_def)

lemma organize_A:
  assumes "dOrder = [(1, 1), (1, 2)] \<or> dOrder = [(1, 2), (1, 1)]"
  shows "organizeHierarchy dOrder [(1, 1) \<mapsto> 0, (1, 2) \<mapsto> 1] [1 \<mapsto> 0] storeA = AddChild 0 1 storeA"
  using assms
  by (auto simp: organizeHierarchy_def organizeStep_def storeA_fields AddChild_def simp del: One_nat_def)

text \<open>
  Claim C2 at Scenario A. \<open>organizeHierarchy\<close> attaches the receiver (port 1) to the
  record with address 1, the root hub. \<open>mergeHierarchy\<close> with no hints does not: its
  fallback block runs only when no record has address 1, and then finds no root to attach
  to, so the root is returned with no child.
\<close>

theorem scenario_A:
  "organizeHierarchy [(1, 1), (1, 2)] [(1, 1) \<mapsto> 0, (1, 2) \<mapsto> 1] [1 \<mapsto> 0] storeA = AddChild 0 1 storeA
   \<and> organizeHierarchy [(1, 2), (1, 1)] [(1, 1) \<mapsto> 0, (1, 2) \<mapsto> 1] [1 \<mapsto> 0] storeA = AddChild 0 1 storeA
   \<and> Children (AddChild 0 1 storeA 0) = [1] \<and> Children (AddChild 0 1 storeA 1) = []
   \<and> visitOrder [] (Map.empty :: key \<rightharpoonup> treeNode)
   \<and> visitOrder [1] (mergeRootDevices [0, 1] Map.empty storeA)
   \<and> mergeHierarchy [] [1] [] [0, 1] Map.empty storeA = ([0], storeA)
   \<and> Children (storeA 0) = []"
proof -
  have r: "mergeRootDevices [0, 1] Map.empty storeA = [1 \<mapsto> 0]"
    unfolding mergeRootDevices_def merge_A_index by simp
  have m: "mergeHierarchy [] [1] [] [0, 1] Map.empty storeA = ([0], storeA)"
    unfolding mergeHierarchy_def merge_A_index by (simp add: Let_def)
  have c: "Children (AddChild 0 1 storeA 0) = [1] \<and> Children (AddChild 0 1 storeA 1) = []"
    by (simp add: AddChild_def storeA_fields del: One_nat_def)
  have v: "visitOrder [] (Map.empty :: key \<rightharpoonup> treeNode)"
    "visitOrder [1] (mergeRootDevices [0, 1] Map.empty storeA)"
    unfolding r by (simp_all add: visitOrder_def)
  from organize_A [of "[(1, 1), (1, 2)]"] organize_A [of "[(1, 2), (1, 1)]"] m c v storeA_fields(4)
  show ?thesis by blast
qed

section \<open>The merge in general\<close>

lemma indexStore_fields:
  "Bus (indexStore hy d h r) = Bus (h r)" "Address (indexStore hy d h r) = Address (h r)"
  "Children (indexStore hy d h r) = Children (h r)"
  by (simp_all add: indexStore_def split: option.splits)

lemma keyOf_indexStore: "keyOf (indexStore hy d h) = keyOf h"
  by (rule ext) (simp add: keyOf_def indexStore_fields)

lemma indexDevice_indexStore: "indexDevice (indexStore hy d h) = indexDevice h"
  by (intro ext) (simp add: indexDevice_def keyOf_indexStore)

lemma fallbackRoot_indexStore: "fallbackRoot (indexStore hy d h) = fallbackRoot h"
  by (intro ext) (simp add: fallbackRoot_def indexStore_fields)

lemma mergeIndex_split:
  "mergeIndex hy d (dm, rd, h) = (indexDevice h d dm, fallbackRoot h d rd, indexStore hy d h)"
proof (cases "hy (Bus (h d), Address (h d))")
  case None
  then have s: "indexStore hy d h = h" by (simp add: indexStore_def keyOf_def)
  show ?thesis
    unfolding s mergeIndex_def Let_def prod.case None
    by (simp add: indexDevice_def fallbackRoot_def keyOf_def)
next
  case (Some node)
  show ?thesis
  proof (cases "speed node = []")
    case True
    have s: "indexStore hy d h = h(d := (h d)\<lparr>Port := port node\<rparr>)"
      using Some True by (simp add: indexStore_def keyOf_def)
    show ?thesis
      unfolding s mergeIndex_def Let_def prod.case Some
      using True by (simp add: indexDevice_def fallbackRoot_def keyOf_def)
  next
    case False
    have s: "indexStore hy d h = h(d := (h d)\<lparr>Port := port node, Speed := convertSpeed (speed node)\<rparr>)"
      using Some False by (simp add: indexStore_def keyOf_def)
    show ?thesis
      unfolding s mergeIndex_def Let_def prod.case Some
      using False by (simp add: indexDevice_def fallbackRoot_def keyOf_def)
  qed
qed

lemma fold_mergeIndex:
  "fold (mergeIndex hy) ds (dm, rd, h) =
     (fold (indexDevice h) ds dm, fold (fallbackRoot h) ds rd, fold (indexStore hy) ds h)"
proof (induction ds arbitrary: dm rd h)
  case Nil
  show ?case by simp
next
  case (Cons d ds)
  have "fold (mergeIndex hy) (d # ds) (dm, rd, h) =
      fold (mergeIndex hy) ds (indexDevice h d dm, fallbackRoot h d rd, indexStore hy d h)"
    by (simp add: mergeIndex_split)
  also have "\<dots> = (fold (indexDevice (indexStore hy d h)) ds (indexDevice h d dm),
      fold (fallbackRoot (indexStore hy d h)) ds (fallbackRoot h d rd),
      fold (indexStore hy) ds (indexStore hy d h))"
    by (rule Cons.IH)
  finally show ?case by (simp add: indexDevice_indexStore fallbackRoot_indexStore)
qed

lemma merge_parts:
  "mergeDeviceMap devices hy h0 = fold (indexDevice h0) devices Map.empty"
  "mergeRootDevices devices hy h0 = fold (fallbackRoot h0) devices Map.empty"
  "mergeStore devices hy h0 = fold (indexStore hy) devices h0"
  by (simp_all add: mergeDeviceMap_def mergeRootDevices_def mergeStore_def fold_mergeIndex)

lemma fold_indexStore_fields:
  "Bus (fold (indexStore hy) ds h r) = Bus (h r) \<and> Address (fold (indexStore hy) ds h r) = Address (h r)
   \<and> Children (fold (indexStore hy) ds h r) = Children (h r)"
  by (induction ds arbitrary: h) (simp_all add: indexStore_fields)

lemma fold_indexDevice_Some:
  "fold (indexDevice h) ds dm k = Some d \<Longrightarrow> dm k = Some d \<or> (d \<in> set ds \<and> keyOf h d = k)"
proof (induction ds arbitrary: dm)
  case Nil
  then show ?case by simp
next
  case (Cons x xs)
  from Cons.prems have "fold (indexDevice h) xs (indexDevice h x dm) k = Some d" by simp
  from Cons.IH [OF this] show ?case
    by (auto simp: indexDevice_def split: if_splits)
qed

lemma fold_fallbackRoot_Some:
  "fold (fallbackRoot h) ds rd b = Some d \<Longrightarrow> rd b = Some d \<or> (d \<in> set ds \<and> Bus (h d) = b \<and> Address (h d) = 1)"
proof (induction ds arbitrary: rd)
  case Nil
  then show ?case by simp
next
  case (Cons x xs)
  from Cons.prems have "fold (fallbackRoot h) xs (fallbackRoot h x rd) b = Some d" by simp
  from Cons.IH [OF this] show ?case
    by (auto simp: fallbackRoot_def split: if_splits)
qed

lemma fold_fallbackRoot_dom: "dom rd \<subseteq> dom (fold (fallbackRoot h) ds rd)"
proof (induction ds arbitrary: rd)
  case Nil
  show ?case by simp
next
  case (Cons x xs)
  have "dom rd \<subseteq> dom (fallbackRoot h x rd)" by (auto simp: fallbackRoot_def)
  also have "\<dots> \<subseteq> dom (fold (fallbackRoot h) xs (fallbackRoot h x rd))" by (rule Cons.IH)
  finally show ?case by simp
qed

lemma fold_fallbackRoot_empty:
  "fold (fallbackRoot h) ds rd = Map.empty \<Longrightarrow> \<forall>d\<in>set ds. Address (h d) \<noteq> 1"
proof (induction ds arbitrary: rd)
  case Nil
  show ?case by simp
next
  case (Cons x xs)
  from Cons.prems have e: "fold (fallbackRoot h) xs (fallbackRoot h x rd) = Map.empty" by simp
  have "dom (fallbackRoot h x rd) \<subseteq> dom (fold (fallbackRoot h) xs (fallbackRoot h x rd))"
    by (rule fold_fallbackRoot_dom)
  then have "dom (fallbackRoot h x rd) = {}" using e by simp
  then have "Address (h x) \<noteq> 1" by (auto simp: fallbackRoot_def split: if_splits)
  then show ?case using Cons.IH [OF e] by simp
qed

lemma fold_fallbackRoot_none:
  "\<forall>d\<in>set ds. Address (h d) \<noteq> 1 \<Longrightarrow> fold (fallbackRoot h) ds rd = rd"
  by (induction ds arbitrary: rd) (simp_all add: fallbackRoot_def)

lemma fold_fallbackAttach_empty: "fold (fallbackAttach Map.empty) ds h = h"
  by (induction ds arbitrary: h) (simp_all add: fallbackAttach_def)

lemma mergeAttach_edge:
  "mergeAttach hy dm k h = (case mergeEdge hy dm k of None \<Rightarrow> h | Some (p, c) \<Rightarrow> AddChild p c h)"
  by (simp add: mergeAttach_def mergeEdge_def split: option.splits)

lemma AddChild_Children:
  "Children (AddChild p c h r) = (if r = p then Children (h r) @ [c] else Children (h r))"
  by (simp add: AddChild_def)

lemma AddChild_rest: "(AddChild p c h r)\<lparr>Children := cs\<rparr> = (h r)\<lparr>Children := cs\<rparr>"
  by (simp add: AddChild_def)

lemma fold_mergeAttach_Children:
  "Children (fold (mergeAttach hy dm) ks h r) =
     Children (h r) @ childrenAdded r (List.map_filter (mergeEdge hy dm) ks)"
proof (induction ks arbitrary: h)
  case Nil
  show ?case by (simp add: childrenAdded_def)
next
  case (Cons k ks)
  show ?case
  proof (cases "mergeEdge hy dm k")
    case None
    then have "mergeAttach hy dm k h = h" by (simp add: mergeAttach_edge)
    then show ?thesis using None Cons.IH [of h] by simp
  next
    case (Some e)
    obtain p c where e: "e = (p, c)" by (cases e)
    have "mergeAttach hy dm k h = AddChild p c h" using Some e by (simp add: mergeAttach_edge)
    then show ?thesis
      using Some e Cons.IH [of "AddChild p c h"]
      by (simp add: AddChild_Children childrenAdded_def)
  qed
qed

lemma fold_mergeAttach_rest:
  "(fold (mergeAttach hy dm) ks h r)\<lparr>Children := cs\<rparr> = (h r)\<lparr>Children := cs\<rparr>"
proof (induction ks arbitrary: h)
  case Nil
  show ?case by simp
next
  case (Cons k ks)
  have "(mergeAttach hy dm k h r)\<lparr>Children := cs\<rparr> = (h r)\<lparr>Children := cs\<rparr>"
    by (cases "mergeEdge hy dm k") (auto simp: mergeAttach_edge AddChild_rest)
  then show ?case using Cons.IH [of "mergeAttach hy dm k h"] by simp
qed

lemma map_filter_no_entry: "List.map_filter (\<lambda>x. None) xs = []"
  by (induction xs) simp_all

text \<open>The fallback block of \<open>mergeHierarchy\<close> never changes anything.\<close>

lemma mergeHierarchy_main:
  assumes "visitOrder rOrder (mergeRootDevices devices hy h0)"
  shows "mergeHierarchy hOrder rOrder rOrder2 devices hy h0 =
     (List.map_filter (mergeRootDevices devices hy h0) rOrder,
      fold (mergeAttach hy (mergeDeviceMap devices hy h0)) hOrder (mergeStore devices hy h0))"
proof -
  let ?rd = "fold (fallbackRoot h0) devices Map.empty"
  let ?dm = "fold (indexDevice h0) devices Map.empty"
  let ?h1 = "fold (indexStore hy) devices h0"
  let ?h2 = "fold (mergeAttach hy ?dm) hOrder ?h1"
  have unfold: "mergeHierarchy hOrder rOrder rOrder2 devices hy h0 =
      (if length (List.map_filter ?rd rOrder) = 0
       then (List.map_filter ?rd rOrder @ List.map_filter (fold (fallbackRoot ?h2) devices ?rd) rOrder2,
             fold (fallbackAttach (fold (fallbackRoot ?h2) devices ?rd)) devices ?h2)
       else (List.map_filter ?rd rOrder, ?h2))"
    by (simp add: mergeHierarchy_def fold_mergeIndex Let_def)
  show ?thesis
  proof (cases "List.map_filter ?rd rOrder = []")
    case False
    then show ?thesis unfolding unfold by (simp add: merge_parts)
  next
    case True
    have sub: "set rOrder = dom ?rd" using assms by (simp add: visitOrder_def merge_parts)
    have "rOrder = []"
    proof (cases rOrder)
      case Nil
      then show ?thesis .
    next
      case (Cons b bs)
      then obtain d where "?rd b = Some d" using sub by auto
      then show ?thesis using True Cons by simp
    qed
    with sub have "dom ?rd = {}" by simp
    then have empty: "?rd = Map.empty" by (simp only: dom_eq_empty_conv)
    then have no1: "\<forall>d\<in>set devices. Address (h0 d) \<noteq> 1" by (rule fold_fallbackRoot_empty)
    have "Address (?h2 d) = Address (h0 d)" for d
    proof -
      have "Address ((?h2 d)\<lparr>Children := []\<rparr>) = Address ((?h1 d)\<lparr>Children := []\<rparr>)"
        by (simp only: fold_mergeAttach_rest)
      then show ?thesis using fold_indexStore_fields [of hy devices h0 d] by simp
    qed
    then have "\<forall>d\<in>set devices. Address (?h2 d) \<noteq> 1" using no1 by simp
    then have "fold (fallbackRoot ?h2) devices ?rd = ?rd" by (rule fold_fallbackRoot_none)
    then have rd2: "fold (fallbackRoot ?h2) devices ?rd = Map.empty" using empty by simp
    show ?thesis
      unfolding unfold rd2 using True
      by (simp add: fold_fallbackAttach_empty merge_parts map_filter_no_entry)
  qed
qed


lemma mset_map_filter: "mset ks = mset ks' \<Longrightarrow> mset (List.map_filter f ks) = mset (List.map_filter f ks')"
proof -
  assume a: "mset ks = mset ks'"
  have "mset (List.map_filter f xs) = image_mset (the \<circ> f) (filter_mset (\<lambda>x. f x \<noteq> None) (mset xs))" for xs
    by (simp add: List.map_filter_def)
  then show ?thesis using a by simp
qed

lemma mset_childrenAdded: "mset es = mset es' \<Longrightarrow> mset (childrenAdded r es) = mset (childrenAdded r es')"
proof -
  assume a: "mset es = mset es'"
  have "mset (childrenAdded r xs) = image_mset snd (filter_mset (\<lambda>e. fst e = r) (mset xs))" for xs
    by (simp add: childrenAdded_def)
  then show ?thesis using a by simp
qed

lemma visitOrder_mset: "visitOrder ks m \<Longrightarrow> visitOrder ks' m \<Longrightarrow> mset ks = mset ks'"
  using set_eq_iff_mset_eq_distinct [of ks ks'] by (simp add: visitOrder_def)

lemma map_key_map_filter:
  "(\<And>k v. f k = Some v \<Longrightarrow> g v = k) \<Longrightarrow> map g (List.map_filter f ks) = filter (\<lambda>k. f k \<noteq> None) ks"
proof (induction ks)
  case Nil
  show ?case by simp
next
  case (Cons k ks)
  show ?case
  proof (cases "f k")
    case None
    then show ?thesis using Cons by simp
  next
    case (Some v)
    then have "g v = k" by (rule Cons.prems)
    then show ?thesis using Some Cons by simp
  qed
qed

lemma distinct_map_filter_key:
  assumes "distinct ks" "\<And>k v. f k = Some v \<Longrightarrow> g v = k"
  shows "distinct (map g (List.map_filter f ks))"
  using assms(1) map_key_map_filter [of f g ks, OF assms(2)] by simp

lemma distinct_of_map: "distinct (map f xs) \<Longrightarrow> distinct xs"
  by (simp add: distinct_map)

lemma mergeEdge_child: "mergeEdge hy dm k = Some (p, c) \<Longrightarrow> dm k = Some c"
  by (auto simp: mergeEdge_def split: option.splits)

lemma mergeDeviceMap_key:
  "mergeDeviceMap devices hy h0 k = Some d \<Longrightarrow> keyOf h0 d = k \<and> d \<in> set devices"
  using fold_indexDevice_Some [of h0 devices Map.empty k d] by (simp add: merge_parts)

lemma mergeRootDevices_bus:
  "mergeRootDevices devices hy h0 b = Some d \<Longrightarrow> Bus (h0 d) = b \<and> Address (h0 d) = 1 \<and> d \<in> set devices"
  using fold_fallbackRoot_Some [of h0 devices Map.empty b d] by (simp add: merge_parts)

lemma distinct_edges:
  assumes "distinct ks"
  shows "distinct (map snd (List.map_filter (mergeEdge hy (mergeDeviceMap devices hy h0)) ks))"
proof -
  have "distinct (map (\<lambda>e. keyOf h0 (snd e)) (List.map_filter (mergeEdge hy (mergeDeviceMap devices hy h0)) ks))"
  proof (rule distinct_map_filter_key [OF assms])
    fix k v
    assume e: "mergeEdge hy (mergeDeviceMap devices hy h0) k = Some v"
    obtain p c where v: "v = (p, c)" by (cases v)
    from e v have "mergeDeviceMap devices hy h0 k = Some c" by (simp add: mergeEdge_child)
    then show "keyOf h0 (snd v) = k" using v mergeDeviceMap_key by simp
  qed
  then have "distinct (map (keyOf h0) (map snd (List.map_filter (mergeEdge hy (mergeDeviceMap devices hy h0)) ks)))"
    by (simp add: comp_def)
  then show ?thesis by (rule distinct_of_map)
qed

lemma distinct_childrenAdded: "distinct (map snd es) \<Longrightarrow> distinct (childrenAdded r es)"
  unfolding childrenAdded_def by (rule distinct_map_filter)

text \<open>
  Claim C6, as the code has it. \<open>mergeHierarchy\<close> starts from records whose children are
  empty. Two runs from the same records and the same hierarchy, whatever the orders in
  which the maps are visited, return the same roots, each once, and give every record the
  same children, none of them twice, and the same other fields; only the order of the
  roots and of the children of a record follows the visit orders.
\<close>

theorem mergeHierarchy_order_independent:
  assumes h: "visitOrder hOrder hierarchy" and h': "visitOrder hOrder' hierarchy"
    and r: "visitOrder rOrder (mergeRootDevices devices hierarchy h0)"
    and r': "visitOrder rOrder' (mergeRootDevices devices hierarchy h0)"
    and fresh: "\<forall>d\<in>set devices. Children (h0 d) = []"
    and run: "mergeHierarchy hOrder rOrder rOrder2 devices hierarchy h0 = (roots, h1)"
    and run': "mergeHierarchy hOrder' rOrder' rOrder2' devices hierarchy h0 = (roots', h1')"
  shows "mset roots = mset roots' \<and> distinct roots
       \<and> mset (Children (h1 x)) = mset (Children (h1' x))
       \<and> (x \<in> set devices \<longrightarrow> distinct (Children (h1 x)))
       \<and> (h1 x)\<lparr>Children := []\<rparr> = (h1' x)\<lparr>Children := []\<rparr>"
proof -
  let ?rd = "mergeRootDevices devices hierarchy h0"
  let ?dm = "mergeDeviceMap devices hierarchy h0"
  let ?hs = "mergeStore devices hierarchy h0"
  let ?es = "List.map_filter (mergeEdge hierarchy ?dm) hOrder"
  let ?es' = "List.map_filter (mergeEdge hierarchy ?dm) hOrder'"
  from run have roots: "roots = List.map_filter ?rd rOrder"
    and h1: "h1 = fold (mergeAttach hierarchy ?dm) hOrder ?hs"
    by (simp_all add: mergeHierarchy_main [OF r])
  from run' have roots': "roots' = List.map_filter ?rd rOrder'"
    and h1': "h1' = fold (mergeAttach hierarchy ?dm) hOrder' ?hs"
    by (simp_all add: mergeHierarchy_main [OF r'])
  have a: "mset roots = mset roots'"
    unfolding roots roots' using visitOrder_mset [OF r r'] by (rule mset_map_filter)
  have "distinct (map (\<lambda>d. Bus (h0 d)) (List.map_filter ?rd rOrder))"
  proof (rule distinct_map_filter_key)
    show "distinct rOrder" using r by (simp add: visitOrder_def)
    show "Bus (h0 v) = k" if "?rd k = Some v" for k v
      using that mergeRootDevices_bus by simp
  qed
  then have b: "distinct roots" unfolding roots by (rule distinct_of_map)
  have ch: "Children (h1 x) = Children (?hs x) @ childrenAdded x ?es"
    unfolding h1 by (rule fold_mergeAttach_Children)
  have ch': "Children (h1' x) = Children (?hs x) @ childrenAdded x ?es'"
    unfolding h1' by (rule fold_mergeAttach_Children)
  have "mset ?es = mset ?es'" using visitOrder_mset [OF h h'] by (rule mset_map_filter)
  then have "mset (childrenAdded x ?es) = mset (childrenAdded x ?es')" by (rule mset_childrenAdded)
  then have c: "mset (Children (h1 x)) = mset (Children (h1' x))" by (simp add: ch ch')
  have d: "distinct (Children (h1 x))" if "x \<in> set devices"
  proof -
    have "Children (?hs x) = Children (h0 x)"
      using fold_indexStore_fields [of hierarchy devices h0 x] by (simp add: merge_parts)
    then have "Children (?hs x) = []" using fresh that by simp
    moreover have "distinct (childrenAdded x ?es)"
    proof (rule distinct_childrenAdded, rule distinct_edges)
      show "distinct hOrder" using h by (simp add: visitOrder_def)
    qed
    ultimately show ?thesis by (simp add: ch)
  qed
  have e: "(h1 x)\<lparr>Children := []\<rparr> = (h1' x)\<lparr>Children := []\<rparr>"
    unfolding h1 h1' by (simp only: fold_mergeAttach_rest)
  from a b c d e show ?thesis by blast
qed


lemma mergeHierarchy_no_hints:
  assumes "visitOrder rOrder (mergeRootDevices devices Map.empty h0)"
  shows "snd (mergeHierarchy hOrder rOrder rOrder2 devices Map.empty h0) = h0"
proof -
  have a: "fold (mergeAttach Map.empty dm) ks h = h" for dm ks h
    by (induction ks arbitrary: h) (simp_all add: mergeAttach_def)
  have b: "fold (indexStore Map.empty) ds h = h" for ds h
    by (induction ds arbitrary: h) (simp_all add: indexStore_def)
  show ?thesis by (simp add: mergeHierarchy_main [OF assms] a b merge_parts)
qed

lemma merge_D_run:
  assumes "Bus (h0 r1) = 1" "Address (h0 r1) = 1" "Bus (h0 r3) = 1" "Address (h0 r3) = 3" "r1 \<noteq> r3"
    and "hOrder = [(1, 1), (1, 3)] \<or> hOrder = [(1, 3), (1, 1)]"
  shows "mergeHierarchy hOrder [1] rOrder2 [r1, r3] hierarchyD h0 =
      ([r1], AddChild r1 r3 (h0(r1 := (h0 r1)\<lparr>Port := 1\<rparr>,
                                r3 := (h0 r3)\<lparr>Port := 2, Speed := ''High (480 Mbps)''\<rparr>)))"
proof -
  have att: "fold (mergeAttach hierarchyD [(1, 1) \<mapsto> r1, (1, 3) \<mapsto> r3]) hOrder h = AddChild r1 r3 h" for h
    using assms(5,6) by (rule merge_D_attach)
  show ?thesis
    unfolding mergeHierarchy_def merge_D_index [OF assms(1-5)] by (simp add: att Let_def)
qed

lemma merge_D_first:
  assumes "hOrder = [(1, 1), (1, 3)] \<or> hOrder = [(1, 3), (1, 1)]"
  shows "mergeHierarchy hOrder [1] [] [0, 1] hierarchyD storeD =
      ([0], AddChild 0 1 (storeD(0 := (storeD 0)\<lparr>Port := 1\<rparr>,
                                1 := (storeD 1)\<lparr>Port := 2, Speed := ''High (480 Mbps)''\<rparr>)))"
  by (rule merge_D_run [OF storeD_fields(1-4) _ assms]) simp

theorem mergeHierarchy_order_independent_witness:
  "visitOrder [(1, 1), (1, 3)] hierarchyD \<and> visitOrder [(1, 3), (1, 1)] hierarchyD
   \<and> visitOrder [1] (mergeRootDevices [0, 1] hierarchyD storeD)
   \<and> Children (storeD 0) = [] \<and> Children (storeD 1) = []
   \<and> mset (fst (mergeHierarchy [(1, 1), (1, 3)] [1] [] [0, 1] hierarchyD storeD))
       = mset (fst (mergeHierarchy [(1, 3), (1, 1)] [1] [] [0, 1] hierarchyD storeD))
   \<and> distinct (fst (mergeHierarchy [(1, 1), (1, 3)] [1] [] [0, 1] hierarchyD storeD))
   \<and> mset (Children (snd (mergeHierarchy [(1, 1), (1, 3)] [1] [] [0, 1] hierarchyD storeD) 0))
       = mset (Children (snd (mergeHierarchy [(1, 3), (1, 1)] [1] [] [0, 1] hierarchyD storeD) 0))
   \<and> distinct (Children (snd (mergeHierarchy [(1, 1), (1, 3)] [1] [] [0, 1] hierarchyD storeD) 0))
   \<and> Children (snd (mergeHierarchy [(1, 1), (1, 3)] [1] [] [0, 1] hierarchyD storeD) 0) = [1]"
proof -
  let ?A = "mergeHierarchy [(1, 1), (1, 3)] [1] [] [0, 1] hierarchyD storeD"
  let ?B = "mergeHierarchy [(1, 3), (1, 1)] [1] [] [0, 1] hierarchyD storeD"
  have h: "visitOrder [(1, 1), (1, 3)] hierarchyD" and h': "visitOrder [(1, 3), (1, 1)] hierarchyD"
    by (auto simp: visitOrder_def hierarchyD_def)
  have "mergeRootDevices [0, 1] hierarchyD storeD = [1 \<mapsto> 0]"
    unfolding mergeRootDevices_def merge_D_index [OF storeD_fields(1-4) zero_neq_one] by simp
  then have r: "visitOrder [1] (mergeRootDevices [0, 1] hierarchyD storeD)"
    by (simp add: visitOrder_def)
  have fresh: "\<forall>d\<in>set [0, 1]. Children (storeD d) = []"
    using storeD_fields(5,6) by simp
  have A: "?A = (fst ?A, snd ?A)" and B: "?B = (fst ?B, snd ?B)" by simp_all
  have c: "Children (snd ?A 0) = [1]"
    using merge_D_first [of "[(1, 1), (1, 3)]"] storeD_fields by (simp add: AddChild_def)
  from mergeHierarchy_order_independent [OF h h' r r fresh A B, of 0] h h' r storeD_fields(5,6) c
  show ?thesis by simp
qed

lemma merge_D_rerun:
  "fst (mergeHierarchy [(1, 1), (1, 3)] [1] [] [0, 1] hierarchyD storeD) = [0]
   \<and> Children (snd (mergeHierarchy [(1, 1), (1, 3)] [1] [] [0, 1] hierarchyD storeD) 0) = [1]
   \<and> fst (mergeHierarchy [(1, 1), (1, 3)] [1] [] [0, 1] hierarchyD
        (snd (mergeHierarchy [(1, 1), (1, 3)] [1] [] [0, 1] hierarchyD storeD))) = [0]
   \<and> Children (snd (mergeHierarchy [(1, 1), (1, 3)] [1] [] [0, 1] hierarchyD
        (snd (mergeHierarchy [(1, 1), (1, 3)] [1] [] [0, 1] hierarchyD storeD))) 0) = [1, 1]"
proof -
  let ?h1 = "AddChild 0 1 (storeD(0 := (storeD 0)\<lparr>Port := 1\<rparr>,
                                1 := (storeD 1)\<lparr>Port := 2, Speed := ''High (480 Mbps)''\<rparr>))"
  have first: "mergeHierarchy [(1, 1), (1, 3)] [1] [] [0, 1] hierarchyD storeD = ([0], ?h1)"
    by (rule merge_D_first) simp
  have f: "Bus (?h1 0) = 1" "Address (?h1 0) = 1" "Bus (?h1 1) = 1" "Address (?h1 1) = 3"
    "Children (?h1 0) = [1]"
    using storeD_fields by (simp_all add: AddChild_def)
  have second: "mergeHierarchy [(1, 1), (1, 3)] [1] [] [0, 1] hierarchyD ?h1 =
      ([0], AddChild 0 1 (?h1(0 := (?h1 0)\<lparr>Port := 1\<rparr>,
                              1 := (?h1 1)\<lparr>Port := 2, Speed := ''High (480 Mbps)''\<rparr>)))"
    by (rule merge_D_run [OF f(1-4)]) simp_all
  have last: "Children (AddChild 0 1 (?h1(0 := (?h1 0)\<lparr>Port := 1\<rparr>,
                              1 := (?h1 1)\<lparr>Port := 2, Speed := ''High (480 Mbps)''\<rparr>)) 0) = [1, 1]"
    using f(5) by (simp add: AddChild_def)
  have s1: "snd (mergeHierarchy [(1, 1), (1, 3)] [1] [] [0, 1] hierarchyD storeD) = ?h1"
    using first by simp
  have a: "fst (mergeHierarchy [(1, 1), (1, 3)] [1] [] [0, 1] hierarchyD storeD) = [0]"
    using first by simp
  have b: "Children (snd (mergeHierarchy [(1, 1), (1, 3)] [1] [] [0, 1] hierarchyD storeD) 0) = [1]"
    unfolding s1 by (rule f(5))
  have c: "fst (mergeHierarchy [(1, 1), (1, 3)] [1] [] [0, 1] hierarchyD
        (snd (mergeHierarchy [(1, 1), (1, 3)] [1] [] [0, 1] hierarchyD storeD))) = [0]"
    unfolding s1 using second by simp
  have d: "Children (snd (mergeHierarchy [(1, 1), (1, 3)] [1] [] [0, 1] hierarchyD
        (snd (mergeHierarchy [(1, 1), (1, 3)] [1] [] [0, 1] hierarchyD storeD))) 0) = [1, 1]"
    unfolding s1 using second last by simp
  from a b c d show ?thesis by blast
qed

subsection \<open>Visit orders and repeated runs\<close>

lemma storeE_fields:
  "Bus (storeE 10) = 1" "Address (storeE 10) = 1" "Bus (storeE 11) = 1" "Address (storeE 11) = 3"
  "Bus (storeE 12) = 1" "Address (storeE 12) = 4"
  "Children (storeE 10) = []" "Children (storeE 11) = []" "Children (storeE 12) = []"
  by (simp_all add: storeE_def zeroDevice_def)

lemma merge_E_maps:
  "mergeDeviceMap [10, 11, 12] hierarchyE storeE = [(1, 1) \<mapsto> 10, (1, 3) \<mapsto> 11, (1, 4) \<mapsto> 12]"
  "mergeRootDevices [10, 11, 12] hierarchyE storeE = [1 \<mapsto> 10]"
  using storeE_fields by (simp_all add: merge_parts indexDevice_def keyOf_def fallbackRoot_def)

lemma merge_E_edges:
  "mergeEdge hierarchyE [(1, 1) \<mapsto> 10, (1, 3) \<mapsto> 11, (1, 4) \<mapsto> 12] (1, 1) = None"
  "mergeEdge hierarchyE [(1, 1) \<mapsto> 10, (1, 3) \<mapsto> 11, (1, 4) \<mapsto> 12] (1, 3) = Some (10, 11)"
  "mergeEdge hierarchyE [(1, 1) \<mapsto> 10, (1, 3) \<mapsto> 11, (1, 4) \<mapsto> 12] (1, 4) = Some (10, 12)"
  by (simp_all add: mergeEdge_def hierarchyE_def)

lemma merge_E_children:
  assumes "visitOrder [1] (mergeRootDevices [10, 11, 12] hierarchyE storeE)"
  shows "Children (snd (mergeHierarchy hOrder [1] [] [10, 11, 12] hierarchyE storeE) 10) =
     childrenAdded 10 (List.map_filter (mergeEdge hierarchyE [(1, 1) \<mapsto> 10, (1, 3) \<mapsto> 11, (1, 4) \<mapsto> 12]) hOrder)"
proof -
  have "Children (mergeStore [10, 11, 12] hierarchyE storeE 10) = []"
    using fold_indexStore_fields [of hierarchyE "[10, 11, 12]" storeE 10] storeE_fields(7)
    by (simp add: merge_parts)
  then show ?thesis
    by (simp add: mergeHierarchy_main [OF assms] fold_mergeAttach_Children merge_E_maps)
qed

text \<open>
  The claim as stated fails in two ways. Two runs on the same new records that visit the
  hierarchy in different orders give the children of the root in different orders; and a
  second run on the records that the first run has worked on appends every child again,
  so that the root of Scenario D has its child twice.
\<close>

theorem mergeHierarchy_runs_differ:
  "visitOrder [(1, 1), (1, 3), (1, 4)] hierarchyE \<and> visitOrder [(1, 1), (1, 4), (1, 3)] hierarchyE
   \<and> visitOrder [1] (mergeRootDevices [10, 11, 12] hierarchyE storeE)
   \<and> Children (snd (mergeHierarchy [(1, 1), (1, 3), (1, 4)] [1] [] [10, 11, 12] hierarchyE storeE) 10) = [11, 12]
   \<and> Children (snd (mergeHierarchy [(1, 1), (1, 4), (1, 3)] [1] [] [10, 11, 12] hierarchyE storeE) 10) = [12, 11]
   \<and> Children (snd (mergeHierarchy [(1, 1), (1, 3)] [1] [] [0, 1] hierarchyD storeD) 0) = [1]
   \<and> Children (snd (mergeHierarchy [(1, 1), (1, 3)] [1] [] [0, 1] hierarchyD
        (snd (mergeHierarchy [(1, 1), (1, 3)] [1] [] [0, 1] hierarchyD storeD))) 0) = [1, 1]"
proof -
  have v: "visitOrder [(1, 1), (1, 3), (1, 4)] hierarchyE" "visitOrder [(1, 1), (1, 4), (1, 3)] hierarchyE"
    by (auto simp: visitOrder_def hierarchyE_def)
  have r: "visitOrder [1] (mergeRootDevices [10, 11, 12] hierarchyE storeE)"
    by (simp add: merge_E_maps visitOrder_def)
  have a: "Children (snd (mergeHierarchy [(1, 1), (1, 3), (1, 4)] [1] [] [10, 11, 12] hierarchyE storeE) 10) = [11, 12]"
    unfolding merge_E_children [OF r] by (simp add: merge_E_edges childrenAdded_def)
  have b: "Children (snd (mergeHierarchy [(1, 1), (1, 4), (1, 3)] [1] [] [10, 11, 12] hierarchyE storeE) 10) = [12, 11]"
    unfolding merge_E_children [OF r] by (simp add: merge_E_edges childrenAdded_def)
  from v r a b merge_D_rerun show ?thesis by blast
qed

end
